theory Spec2Isabelle
  imports Complex_Main "HOL-Library.Multiset"
begin

section \<open>PLANE 1990: a shallow embedding of the simulation core\<close>

text \<open>
  The program is a single Python module. Its classes become records, its methods become
  functions from the old object (or session) to the new one, its loops become recursive
  functions, and every call of the random module becomes an explicit argument.

  Conventions of the embedding:
  \<^item> Python floats are idealised as reals: rounding, signed zeros, infinities and NaN are
    outside the model. Python ints are \<open>int\<close>.
  \<^item> Instances of Bullet and Plane are compared by identity in Python (neither class
    defines equality), so each record carries an object identity \<open>oid\<close>; membership and
    list removal go by that identity.
  \<^item> The particle system, colours, button hover flags and the wing animation value only
    feed the drawing code and are left out; no simulation field ever reads them. Fields
    that are assigned once and never read again are left out as well.
  \<^item> Each object is put into exactly one list, once, right after it is made, so a list
    never holds the same object twice and a record per list element is enough.
\<close>

subsection \<open>Constants\<close>

definition SCREEN_WIDTH :: int where "SCREEN_WIDTH = 800"
definition SCREEN_HEIGHT :: int where "SCREEN_HEIGHT = 600"

definition PLAYER_SPEED :: real where "PLAYER_SPEED = 3"
definition ENEMY_SPEED :: real where "ENEMY_SPEED = 1.5"
definition BULLET_SPEED :: real where "BULLET_SPEED = 8"
definition ENEMY_BULLET_SPEED :: real where "ENEMY_BULLET_SPEED = 5"

definition PLAYER_SIZE :: int where "PLAYER_SIZE = 20"
definition ENEMY_SIZE :: int where "ENEMY_SIZE = 18"
definition BULLET_SIZE :: int where "BULLET_SIZE = 4"
definition WALL_SIZE :: int where "WALL_SIZE = 32"

definition MAX_ENEMIES :: nat where "MAX_ENEMIES = 6"
definition ENEMY_SPAWN_DELAY :: real where "ENEMY_SPAWN_DELAY = 2.0"
definition ENEMY_SHOOT_DELAY :: real where "ENEMY_SHOOT_DELAY = 1.0"
definition ENEMY_HOMING_DELAY :: real where "ENEMY_HOMING_DELAY = 1.0"

definition ANIMATION_DURATION :: real where "ANIMATION_DURATION = 0.7"
definition SHOOT_COOLDOWN :: real where "SHOOT_COOLDOWN = 0.3"
definition LASER_COOLDOWN :: real where "LASER_COOLDOWN = 4.0"
definition MAX_LASERS :: int where "MAX_LASERS = 2"

record Level =
  level_walls :: nat
  level_enemies :: nat
  level_time :: int

definition LEVELS :: "Level list" where
  "LEVELS =
    [\<lparr>level_walls = 3, level_enemies = 3, level_time = 30\<rparr>,
     \<lparr>level_walls = 4, level_enemies = 4, level_time = 40\<rparr>,
     \<lparr>level_walls = 5, level_enemies = 5, level_time = 50\<rparr>,
     \<lparr>level_walls = 6, level_enemies = 6, level_time = 60\<rparr>]"

datatype GameState =
  MENU | RULES | READY | PLAYING | GAME_OVER | WIN | LEVEL_COMPLETE | HIGH_SCORES

subsection \<open>The math module\<close>

definition radians :: "real \<Rightarrow> real" where
  "radians d = d * pi / 180"

definition degrees :: "real \<Rightarrow> real" where
  "degrees r = r * 180 / pi"

text \<open>The two-argument arctangent, with the library's values on the axes and at the origin.\<close>

definition atan2 :: "real \<Rightarrow> real \<Rightarrow> real" where
  "atan2 y x =
     (if 0 < x then arctan (y / x)
      else if x < 0 then (if 0 \<le> y then arctan (y / x) + pi else arctan (y / x) - pi)
      else if 0 < y then pi / 2
      else if y < 0 then - (pi / 2)
      else 0)"

text \<open>Python's \<open>%\<close> on floats with a positive modulus: the result has the sign of the modulus.\<close>

definition fmod :: "real \<Rightarrow> real \<Rightarrow> real" where
  "fmod a m = a - m * of_int \<lfloor>a / m\<rfloor>"

definition distance :: "real \<Rightarrow> real \<Rightarrow> real \<Rightarrow> real \<Rightarrow> real" where
  "distance x1 y1 x2 y2 = sqrt ((x1 - x2)\<^sup>2 + (y1 - y2)\<^sup>2)"

subsection \<open>Identity of objects in lists\<close>

text \<open>\<open>obj in xs\<close> and \<open>xs.remove(obj)\<close> for objects compared by identity.\<close>

definition obj_in :: "('a \<Rightarrow> nat) \<Rightarrow> nat \<Rightarrow> 'a list \<Rightarrow> bool" where
  "obj_in ident k xs = (k \<in> set (map ident xs))"

fun remove_obj :: "('a \<Rightarrow> nat) \<Rightarrow> nat \<Rightarrow> 'a list \<Rightarrow> 'a list" where
  "remove_obj ident k [] = []"
| "remove_obj ident k (x # xs) = (if ident x = k then xs else x # remove_obj ident k xs)"

subsection \<open>Wall\<close>

record Wall =
  wall_x :: int
  wall_y :: int
  wall_width :: int
  wall_height :: int

definition mk_wall :: "int \<Rightarrow> int \<Rightarrow> Wall" where
  "mk_wall x y = \<lparr>wall_x = x, wall_y = y, wall_width = WALL_SIZE, wall_height = WALL_SIZE\<rparr>"

text \<open>\<open>get_rect\<close> returns (left, right, bottom, top); \<open>//\<close> is floor division, as \<open>div\<close> on int.\<close>

definition get_rect :: "Wall \<Rightarrow> int \<times> int \<times> int \<times> int" where
  "get_rect w =
     (wall_x w - wall_width w div 2, wall_x w + wall_width w div 2,
      wall_y w - wall_height w div 2, wall_y w + wall_height w div 2)"

text \<open>The test \<open>left <= px <= right and bottom <= py <= top\<close> shared by several loops.\<close>

definition point_in_wall :: "real \<Rightarrow> real \<Rightarrow> Wall \<Rightarrow> bool" where
  "point_in_wall px py w =
     (case get_rect w of (left, right, bottom, top') \<Rightarrow>
        of_int left \<le> px \<and> px \<le> of_int right \<and> of_int bottom \<le> py \<and> py \<le> of_int top')"

subsection \<open>Plane\<close>

record Plane =
  plane_oid :: nat
  plane_x :: real
  plane_y :: real
  angle :: real
  is_player :: bool
  speed :: real
  plane_size :: int
  plane_animation_timer :: real
  moving_up :: bool
  moving_down :: bool
  moving_left :: bool
  moving_right :: bool
  target_angle :: real
  direction_change_timer :: real
  can_see_player :: bool
  shoot_timer :: real
  homing_timer :: real
  is_homing :: bool
  laser_count :: int
  laser_recharge_timers :: "real list"
  shoot_cooldown :: real
  last_player_pos :: "(real \<times> real) option"

text \<open>
  The constructor. \<open>last_player_pos\<close> stands for the attribute \<open>_last_player_pos\<close> that the
  game loop attaches to a hostile later; \<open>None\<close> means the attribute does not exist yet.
  The laser fields exist on the player only; on a hostile they are never read.
\<close>

definition new_plane :: "nat \<Rightarrow> real \<Rightarrow> real \<Rightarrow> bool \<Rightarrow> Plane" where
  "new_plane k x y player =
     \<lparr>plane_oid = k, plane_x = x, plane_y = y, angle = 0, is_player = player,
      speed = (if player then PLAYER_SPEED else ENEMY_SPEED),
      plane_size = (if player then PLAYER_SIZE else ENEMY_SIZE),
      plane_animation_timer = 0,
      moving_up = False, moving_down = False, moving_left = False, moving_right = False,
      target_angle = 0, direction_change_timer = 0, can_see_player = False,
      shoot_timer = ENEMY_SHOOT_DELAY, homing_timer = 0, is_homing = False,
      laser_count = (if player then MAX_LASERS else 0),
      laser_recharge_timers = (if player then [0, 0] else []),
      shoot_cooldown = 0, last_player_pos = None\<rparr>"

definition set_movement :: "bool \<Rightarrow> bool \<Rightarrow> bool \<Rightarrow> bool \<Rightarrow> Plane \<Rightarrow> Plane" where
  "set_movement up down left right p =
     p\<lparr>moving_up := up, moving_down := down, moving_left := left, moving_right := right\<rparr>"

subsubsection \<open>Plane.move\<close>

text \<open>The direction flags \<open>dx\<close>, \<open>dy\<close>: later assignments override earlier ones.\<close>

definition move_dx :: "Plane \<Rightarrow> int" where
  "move_dx p =
     (if is_player p
      then (if moving_right p then 1 else if moving_left p then -1 else 0)
      else 1)"

definition move_dy :: "Plane \<Rightarrow> int" where
  "move_dy p =
     (if is_player p
      then (if moving_down p then -1 else if moving_up p then 1 else 0)
      else 0)"

text \<open>The player's heading follows the keys whenever a key is held.\<close>

definition move_turn :: "Plane \<Rightarrow> Plane" where
  "move_turn p =
     (if is_player p \<and> (move_dx p \<noteq> 0 \<or> move_dy p \<noteq> 0)
      then p\<lparr>angle := degrees (atan2 (of_int (move_dy p)) (of_int (move_dx p)))\<rparr>
      else p)"

text \<open>The candidate position \<open>(new_x, new_y)\<close>, computed from the heading after the turn.\<close>

definition move_new_x :: "Plane \<Rightarrow> real" where
  "move_new_x p =
     plane_x p + cos (radians (angle (move_turn p))) * speed p *
       (if move_dx p \<noteq> 0 \<or> \<not> is_player p then 1 else 0)"

definition move_new_y :: "Plane \<Rightarrow> real" where
  "move_new_y p =
     plane_y p + sin (radians (angle (move_turn p))) * speed p *
       (if move_dy p \<noteq> 0 \<or> \<not> is_player p then 1 else 0)"

text \<open>The body of the wall loop: does the craft at the candidate overlap this wall?\<close>

definition wall_blocks :: "int \<Rightarrow> real \<Rightarrow> real \<Rightarrow> Wall \<Rightarrow> bool" where
  "wall_blocks sz new_x new_y w =
     (case get_rect w of (left, right, bottom, top') \<Rightarrow>
        let distance_x = \<bar>new_x - of_int (left + right) / 2\<bar>;
            distance_y = \<bar>new_y - of_int (bottom + top') / 2\<bar>;
            half_width = of_int (right - left) / 2 + of_int sz;
            half_height = of_int (top' - bottom) / 2 + of_int sz
        in distance_x < half_width \<and> distance_y < half_height)"

text \<open>The wall loop with its \<open>break\<close>: the value of \<open>can_move\<close> after the loop.\<close>

fun can_move :: "int \<Rightarrow> real \<Rightarrow> real \<Rightarrow> Wall list \<Rightarrow> bool" where
  "can_move sz new_x new_y [] = True"
| "can_move sz new_x new_y (w # ws) =
     (if wall_blocks sz new_x new_y w then False else can_move sz new_x new_y ws)"

definition move :: "Wall list \<Rightarrow> Plane \<Rightarrow> Plane" where
  "move walls p =
     (let new_x = move_new_x p; new_y = move_new_y p; q = move_turn p
      in if of_int (plane_size p) \<le> new_x \<and> new_x \<le> of_int (SCREEN_WIDTH - plane_size p) \<and>
            of_int (plane_size p) \<le> new_y \<and> new_y \<le> of_int (SCREEN_HEIGHT - plane_size p) \<and>
            can_move (plane_size p) new_x new_y walls
         then q\<lparr>plane_x := new_x, plane_y := new_y\<rparr>
         else q)"

text \<open>The craft lies within the screen, its size away from every edge.\<close>

definition in_bounds :: "Plane \<Rightarrow> bool" where
  "in_bounds p \<longleftrightarrow>
     of_int (plane_size p) \<le> plane_x p \<and> plane_x p \<le> of_int (SCREEN_WIDTH - plane_size p) \<and>
     of_int (plane_size p) \<le> plane_y p \<and> plane_y p \<le> of_int (SCREEN_HEIGHT - plane_size p)"

subsubsection \<open>Plane._check_player_visibility\<close>

text \<open>
  The absolute angular difference of the visibility test:
  \<open>abs((a - b) % 360)\<close>, folded back with \<open>360 - d\<close> when it exceeds 180.
\<close>

definition abs_angle_diff :: "real \<Rightarrow> real \<Rightarrow> real" where
  "abs_angle_diff a b =
     (let d = \<bar>fmod (a - b) 360\<bar> in if 180 < d then 360 - d else d)"

text \<open>The sample point number \<open>i\<close> of \<open>steps\<close> on the segment from the hostile to the player.\<close>

definition check_x :: "Plane \<Rightarrow> Plane \<Rightarrow> nat \<Rightarrow> nat \<Rightarrow> real" where
  "check_x e pl steps i = plane_x e + (plane_x pl - plane_x e) * of_nat i / of_nat steps"

definition check_y :: "Plane \<Rightarrow> Plane \<Rightarrow> nat \<Rightarrow> nat \<Rightarrow> real" where
  "check_y e pl steps i = plane_y e + (plane_y pl - plane_y e) * of_nat i / of_nat steps"

text \<open>
  The two nested loops \<open>for i in range(1, steps + 1): for wall in walls\<close>; their early
  \<open>return False\<close> is taken as soon as one sample point lies in one wall.
\<close>

fun wall_hit :: "real \<Rightarrow> real \<Rightarrow> Wall list \<Rightarrow> bool" where
  "wall_hit px py [] = False"
| "wall_hit px py (w # ws) = (if point_in_wall px py w then True else wall_hit px py ws)"

fun sight_blocked :: "Plane \<Rightarrow> Plane \<Rightarrow> Wall list \<Rightarrow> nat \<Rightarrow> nat list \<Rightarrow> bool" where
  "sight_blocked e pl walls steps [] = False"
| "sight_blocked e pl walls steps (i # is) =
     (if wall_hit (check_x e pl steps i) (check_y e pl steps i) walls then True
      else sight_blocked e pl walls steps is)"

definition check_player_visibility :: "Plane option \<Rightarrow> Wall list \<Rightarrow> Plane \<Rightarrow> Plane" where
  "check_player_visibility player walls e =
     (case player of
        None \<Rightarrow> e\<lparr>can_see_player := False\<rparr>
      | Some pl \<Rightarrow>
          let dx = plane_x pl - plane_x e;
              dy = plane_y pl - plane_y e;
              distance_to_player = sqrt (dx\<^sup>2 + dy\<^sup>2)
          in if 300 < distance_to_player then e\<lparr>can_see_player := False\<rparr>
             else
               let angle_to_player = degrees (atan2 dy dx)
               in if 45 < abs_angle_diff angle_to_player (angle e)
                  then e\<lparr>can_see_player := False\<rparr>
                  else
                    let steps = nat \<lfloor>distance_to_player / 10\<rfloor>
                    in if sight_blocked e pl walls steps [1 ..< steps + 1]
                       then e\<lparr>can_see_player := False\<rparr>
                       else e\<lparr>can_see_player := True\<rparr>)"

subsubsection \<open>Plane._update_enemy\<close>

text \<open>
  The signed angular difference used for turning: \<open>(a - b) % 360\<close>, minus 360 when it
  exceeds 180.
\<close>

definition angle_diff :: "real \<Rightarrow> real \<Rightarrow> real" where
  "angle_diff a b = (let d = fmod (a - b) 360 in if 180 < d then d - 360 else d)"

text \<open>\<open>random.choice([0, 90, 180, 270])\<close>, with the drawn index as an argument.\<close>

definition cardinal :: "nat \<Rightarrow> real" where
  "cardinal c = [0, 90, 180, 270] ! (c mod 4)"

text \<open>\<open>random.uniform(a, b)\<close>, with the drawn fraction \<open>u\<close> of the unit interval as an argument.\<close>

definition uniform :: "real \<Rightarrow> real \<Rightarrow> real \<Rightarrow> real" where
  "uniform a b u = a + (b - a) * u"

text \<open>The branch taken when the player is closer than 200 units.\<close>

definition homing_step :: "real \<Rightarrow> real \<Rightarrow> real \<Rightarrow> Plane \<Rightarrow> Plane" where
  "homing_step dx_to_player dy_to_player delta_time e =
     (let e1 = (if \<not> is_homing e
                then e\<lparr>is_homing := True, homing_timer := ENEMY_HOMING_DELAY\<rparr>
                else e);
          e2 = (if 0 < homing_timer e1
                then e1\<lparr>homing_timer := homing_timer e1 - delta_time\<rparr>
                else e1)
      in if homing_timer e2 \<le> 0
         then
           let target = degrees (atan2 dy_to_player dx_to_player)
           in e2\<lparr>angle := angle e2 + angle_diff target (angle e2) * 0.2,
                 target_angle := target,
                 direction_change_timer := 0\<rparr>
         else e2)"

text \<open>The branch taken otherwise; \<open>c\<close> and \<open>u\<close> are the two random draws.\<close>

definition patrol_step :: "nat \<Rightarrow> real \<Rightarrow> Plane \<Rightarrow> Plane" where
  "patrol_step c u e =
     (let e1 = e\<lparr>is_homing := False, homing_timer := ENEMY_HOMING_DELAY\<rparr>;
          e2 = (if direction_change_timer e1 \<le> 0
                then e1\<lparr>target_angle := cardinal c, direction_change_timer := uniform 1 3 u\<rparr>
                else e1)
      in e2\<lparr>angle := angle e2 + angle_diff (target_angle e2) (angle e2) * 0.05\<rparr>)"

definition update_enemy ::
  "Wall list \<Rightarrow> Plane option \<Rightarrow> real \<Rightarrow> nat \<Rightarrow> real \<Rightarrow> Plane \<Rightarrow> Plane" where
  "update_enemy walls player delta_time c u e =
     (case player of
        None \<Rightarrow> e
      | Some pl \<Rightarrow>
          let e1 = e\<lparr>direction_change_timer := direction_change_timer e - delta_time\<rparr>;
              dx_to_player = plane_x pl - plane_x e1;
              dy_to_player = plane_y pl - plane_y e1;
              distance_to_player = sqrt (dx_to_player\<^sup>2 + dy_to_player\<^sup>2);
              e2 = (if distance_to_player < 200
                    then homing_step dx_to_player dy_to_player delta_time e1
                    else patrol_step c u e1);
              e3 = check_player_visibility player walls e2
          in if 0 < shoot_timer e3
             then e3\<lparr>shoot_timer := shoot_timer e3 - delta_time\<rparr>
             else e3)"

subsubsection \<open>Plane.update\<close>

text \<open>
  The loop over the recharge timers: a timer that runs out is set to zero and gives one
  charge back, capped at \<open>MAX_LASERS\<close>.
\<close>

fun recharge :: "real \<Rightarrow> real list \<Rightarrow> int \<Rightarrow> real list \<times> int" where
  "recharge delta_time [] n = ([], n)"
| "recharge delta_time (t # ts) n =
     (if 0 < t
      then (if t - delta_time \<le> 0
            then (case recharge delta_time ts (min (n + 1) MAX_LASERS) of
                    (ts', n') \<Rightarrow> (0 # ts', n'))
            else (case recharge delta_time ts n of (ts', n') \<Rightarrow> ((t - delta_time) # ts', n')))
      else (case recharge delta_time ts n of (ts', n') \<Rightarrow> (t # ts', n')))"

definition update_player_timers :: "real \<Rightarrow> Plane \<Rightarrow> Plane" where
  "update_player_timers delta_time p =
     (let p1 = (if 0 < shoot_cooldown p
                then p\<lparr>shoot_cooldown := shoot_cooldown p - delta_time\<rparr>
                else p)
      in case recharge delta_time (laser_recharge_timers p1) (laser_count p1) of
           (ts, n) \<Rightarrow> p1\<lparr>laser_recharge_timers := ts, laser_count := n\<rparr>)"

definition update ::
  "Wall list \<Rightarrow> Plane option \<Rightarrow> real \<Rightarrow> nat \<Rightarrow> real \<Rightarrow> Plane \<Rightarrow> Plane" where
  "update walls player delta_time c u p =
     (let p1 = p\<lparr>plane_animation_timer := plane_animation_timer p + delta_time\<rparr>;
          p2 = (if is_player p1 then update_player_timers delta_time p1 else p1);
          p3 = (if \<not> is_player p2 then update_enemy walls player delta_time c u p2 else p2)
      in move walls p3)"

subsection \<open>Bullet\<close>

record Bullet =
  bullet_oid :: nat
  bullet_x :: real
  bullet_y :: real
  bullet_angle :: real
  bullet_speed :: real
  bullet_is_player :: bool
  bullet_radius :: int
  trail_timer :: real
  trail_interval :: real

definition new_bullet :: "nat \<Rightarrow> real \<Rightarrow> real \<Rightarrow> real \<Rightarrow> bool \<Rightarrow> Bullet" where
  "new_bullet k x y a player =
     \<lparr>bullet_oid = k, bullet_x = x, bullet_y = y, bullet_angle = a,
      bullet_speed = (if player then BULLET_SPEED else ENEMY_BULLET_SPEED),
      bullet_is_player = player, bullet_radius = BULLET_SIZE,
      trail_timer = 0, trail_interval = 0.05\<rparr>"

text \<open>
  \<open>Bullet.update\<close> returns whether the bullet was destroyed by a wall, and the bullet after
  the call: the trail timer advances in any case, the position only when no wall is hit.
\<close>

definition bullet_update :: "Wall list \<Rightarrow> real \<Rightarrow> Bullet \<Rightarrow> bool \<times> Bullet" where
  "bullet_update walls delta_time b =
     (let angle_rad = radians (bullet_angle b);
          new_x = bullet_x b + cos angle_rad * bullet_speed b;
          new_y = bullet_y b + sin angle_rad * bullet_speed b;
          b1 = b\<lparr>trail_timer := trail_timer b + delta_time\<rparr>;
          b2 = (if trail_interval b1 \<le> trail_timer b1 then b1\<lparr>trail_timer := 0\<rparr> else b1)
      in if wall_hit new_x new_y walls then (True, b2)
         else (False, b2\<lparr>bullet_x := new_x, bullet_y := new_y\<rparr>))"

definition is_off_screen :: "Bullet \<Rightarrow> bool" where
  "is_off_screen b =
     (bullet_x b < 0 \<or> of_int SCREEN_WIDTH < bullet_x b \<or>
      bullet_y b < 0 \<or> of_int SCREEN_HEIGHT < bullet_y b)"

subsection \<open>Plane, continued\<close>

subsubsection \<open>Plane.shoot\<close>

text \<open>The loop that starts the recharge of the first idle charge, with its \<open>break\<close>.\<close>

fun start_recharge :: "real list \<Rightarrow> real list" where
  "start_recharge [] = []"
| "start_recharge (t # ts) = (if t \<le> 0 then LASER_COOLDOWN # ts else t # start_recharge ts)"

text \<open>
  \<open>shoot\<close> returns the new bullet, or \<open>None\<close>, together with the craft after the call; \<open>k\<close> is
  the identity of the bullet object, should one be made.
\<close>

definition shoot :: "nat \<Rightarrow> Plane \<Rightarrow> Bullet option \<times> Plane" where
  "shoot k p =
     (if is_player p
      then (if 0 < laser_count p \<and> shoot_cooldown p \<le> 0
            then (Some (new_bullet k (plane_x p) (plane_y p) (angle p) True),
                  p\<lparr>laser_recharge_timers := start_recharge (laser_recharge_timers p),
                    laser_count := laser_count p - 1,
                    shoot_cooldown := SHOOT_COOLDOWN\<rparr>)
            else (None, p))
      else (if (can_see_player p \<or> is_homing p) \<and> shoot_timer p \<le> 0
            then
              let shoot_angle =
                    (case last_player_pos p of
                       Some (lx, ly) \<Rightarrow>
                         if is_homing p
                         then degrees (atan2 (ly - plane_y p) (lx - plane_x p))
                         else angle p
                     | None \<Rightarrow> angle p)
              in (Some (new_bullet k (plane_x p) (plane_y p) shoot_angle False),
                  p\<lparr>shoot_timer := ENEMY_SHOOT_DELAY\<rparr>)
            else (None, p)))"

subsection \<open>Button\<close>

record Button =
  button_x :: real
  button_y :: real
  button_width :: real
  button_height :: real

definition is_clicked :: "Button \<Rightarrow> real \<Rightarrow> real \<Rightarrow> bool" where
  "is_clicked b click_x click_y =
     (let left = button_x b - button_width b / 2;
          right = button_x b + button_width b / 2;
          bottom = button_y b - button_height b / 2;
          top' = button_y b + button_height b / 2
      in left \<le> click_x \<and> click_x \<le> right \<and> bottom \<le> click_y \<and> click_y \<le> top')"

text \<open>
  The buttons made by \<open>_create_ui_elements\<close>. Every \<open>setup\<close> makes them anew with the same
  geometry, so they are constants here.
\<close>

definition mk_button :: "int \<Rightarrow> int \<Rightarrow> int \<Rightarrow> int \<Rightarrow> Button" where
  "mk_button x y w h =
     \<lparr>button_x = of_int x, button_y = of_int y, button_width = of_int w,
      button_height = of_int h\<rparr>"

definition button_start :: Button where
  "button_start = mk_button (SCREEN_WIDTH div 2) (SCREEN_HEIGHT div 2 - 50) 200 50"
definition button_continue :: Button where
  "button_continue = mk_button (SCREEN_WIDTH div 2) 100 200 50"
definition button_restart :: Button where
  "button_restart = mk_button (SCREEN_WIDTH div 2) (SCREEN_HEIGHT div 2 - 50) 200 40"
definition button_menu :: Button where
  "button_menu = mk_button (SCREEN_WIDTH div 2) (SCREEN_HEIGHT div 2 - 120) 200 40"
definition button_win_restart :: Button where
  "button_win_restart = mk_button (SCREEN_WIDTH div 2) (SCREEN_HEIGHT div 2 - 50) 200 40"
definition button_win_menu :: Button where
  "button_win_menu = mk_button (SCREEN_WIDTH div 2) (SCREEN_HEIGHT div 2 - 120) 200 40"
definition button_next_level :: Button where
  "button_next_level = mk_button (SCREEN_WIDTH div 2) (SCREEN_HEIGHT div 2 - 50) 200 40"
definition button_high_scores :: Button where
  "button_high_scores = mk_button (SCREEN_WIDTH div 2) (SCREEN_HEIGHT div 2 - 120) 200 40"
definition button_back_to_menu :: Button where
  "button_back_to_menu = mk_button (SCREEN_WIDTH div 2) 80 200 40"

subsection \<open>Camera\<close>

record Camera =
  cam_width :: int
  cam_height :: int
  shake_timer :: real
  shake_intensity :: real
  offset_x :: real
  offset_y :: real
  cam_target_x :: real
  cam_target_y :: real

definition new_camera :: "int \<Rightarrow> int \<Rightarrow> Camera" where
  "new_camera w h =
     \<lparr>cam_width = w, cam_height = h, shake_timer = 0, shake_intensity = 0,
      offset_x = 0, offset_y = 0, cam_target_x = 0, cam_target_y = 0\<rparr>"

definition shake :: "real \<Rightarrow> real \<Rightarrow> Camera \<Rightarrow> Camera" where
  "shake intensity duration c = c\<lparr>shake_timer := duration, shake_intensity := intensity\<rparr>"

text \<open>\<open>Camera.update\<close>; \<open>u1\<close> and \<open>u2\<close> are the draws of the two \<open>random.uniform\<close> calls.\<close>

definition update_camera :: "Plane option \<Rightarrow> real \<Rightarrow> real \<Rightarrow> real \<Rightarrow> Camera \<Rightarrow> Camera" where
  "update_camera player delta_time u1 u2 c =
     (let c1 = (if 0 < shake_timer c
                then c\<lparr>shake_timer := shake_timer c - delta_time,
                       shake_intensity := max 0 (shake_intensity c - delta_time * 10)\<rparr>
                else c\<lparr>shake_intensity := 0\<rparr>)
      in case player of
           None \<Rightarrow> c1
         | Some pl \<Rightarrow>
             let tx = plane_x pl - of_int (cam_width c1) / 2;
                 ty = plane_y pl - of_int (cam_height c1) / 2;
                 i = shake_intensity c1;
                 tx1 = (if 0 < i then tx + uniform (- i) i u1 else tx);
                 ty1 = (if 0 < i then ty + uniform (- i) i u2 else ty);
                 tx2 = max 0 (min tx1 (of_int (SCREEN_WIDTH * 2 - cam_width c1)));
                 ty2 = max 0 (min ty1 (of_int (SCREEN_HEIGHT * 2 - cam_height c1)))
             in c1\<lparr>cam_target_x := tx2, cam_target_y := ty2,
                    offset_x := offset_x c1 + (tx2 - offset_x c1) * 0.1,
                    offset_y := offset_y c1 + (ty2 - offset_y c1) * 0.1\<rparr>)"

subsection \<open>HighScoreManager\<close>

text \<open>
  The score file is seen through the csv module: as a list of rows, each a list of
  strings, or \<open>None\<close> when the file does not exist. Reading and writing the file itself are
  taken to succeed. Characters are code points below 256.
\<close>

record ScoreEntry =
  entry_name :: string
  entry_score :: int
  entry_level :: int
  entry_date :: string

record HighScoreManager =
  scores :: "ScoreEntry list"
  score_file :: "string list list option"

datatype error = ValueError

text \<open>
  The builtin \<open>int\<close> on a string: surrounding whitespace is dropped, then an optional sign
  and decimal digits follow, where single underscores may stand between digits. The
  interpreter's optional cap on the number of digits is not modelled.
\<close>

definition is_space :: "char \<Rightarrow> bool" where
  "is_space c = ((of_char c :: nat) \<in> set [9, 10, 11, 12, 13, 28, 29, 30, 31, 32, 133, 160])"

definition is_digit :: "char \<Rightarrow> bool" where
  "is_digit c = (48 \<le> (of_char c :: nat) \<and> (of_char c :: nat) \<le> 57)"

definition digit_value :: "char \<Rightarrow> nat" where
  "digit_value c = of_char c - 48"

definition strip :: "string \<Rightarrow> string" where
  "strip s = rev (dropWhile is_space (rev (dropWhile is_space s)))"

fun parse_digits :: "string \<Rightarrow> nat \<Rightarrow> nat option" where
  "parse_digits [] acc = Some acc"
| "parse_digits (c # cs) acc =
     (if is_digit c then parse_digits cs (10 * acc + digit_value c)
      else if c = CHR ''_'' \<and> cs \<noteq> [] \<and> is_digit (hd cs) then parse_digits cs acc
      else None)"

definition parse_unsigned :: "string \<Rightarrow> nat option" where
  "parse_unsigned s = (if s \<noteq> [] \<and> is_digit (hd s) then parse_digits s 0 else None)"

definition py_int :: "string \<Rightarrow> int option" where
  "py_int s =
     (case strip s of
        [] \<Rightarrow> None
      | c # cs \<Rightarrow>
          if c = CHR ''-'' then map_option (\<lambda>n. - int n) (parse_unsigned cs)
          else if c = CHR ''+'' then map_option int (parse_unsigned cs)
          else map_option int (parse_unsigned (c # cs)))"

text \<open>The builtin \<open>str\<close> on an int.\<close>

fun str_nat :: "nat \<Rightarrow> string" where
  "str_nat n =
     (if n < 10 then [char_of (48 + n)]
      else str_nat (n div 10) @ [char_of (48 + n mod 10)])"

declare str_nat.simps [simp del]

definition str_int :: "int \<Rightarrow> string" where
  "str_int i = (if i < 0 then CHR ''-'' # str_nat (nat (- i)) else str_nat (nat i))"

text \<open>
  The loop over the rows of the file, inside the \<open>try\<close> block: a row with fewer than four
  fields is passed over; a row whose score or level is not an integer literal raises, which
  ends the loop.
\<close>

fun read_rows :: "string list list \<Rightarrow> ScoreEntry list \<Rightarrow> error + ScoreEntry list" where
  "read_rows [] acc = Inr acc"
| "read_rows (row # rows) acc =
     (if 4 \<le> length row
      then (case py_int (row ! 1) of
              None \<Rightarrow> Inl ValueError
            | Some sc \<Rightarrow>
                (case py_int (row ! 2) of
                   None \<Rightarrow> Inl ValueError
                 | Some lv \<Rightarrow>
                     read_rows rows
                       (acc @ [\<lparr>entry_name = row ! 0, entry_score = sc, entry_level = lv,
                                 entry_date = row ! 3\<rparr>])))
      else read_rows rows acc)"

text \<open>
  \<open>sort(key=score, reverse=True)\<close>: a stable sort by descending score, that is, entries
  with equal scores keep their order.
\<close>

definition sort_scores :: "ScoreEntry list \<Rightarrow> ScoreEntry list" where
  "sort_scores xs = sort_key (\<lambda>e. - entry_score e) xs"

text \<open>The \<open>except\<close> clause replaces whatever was read so far by the empty list.\<close>

definition load_scores :: "HighScoreManager \<Rightarrow> HighScoreManager" where
  "load_scores m =
     (let loaded =
            (case score_file m of
               None \<Rightarrow> []
             | Some rows \<Rightarrow> (case read_rows rows [] of Inl e \<Rightarrow> [] | Inr xs \<Rightarrow> xs))
      in m\<lparr>scores := take 10 (sort_scores loaded)\<rparr>)"

definition new_manager :: "string list list option \<Rightarrow> HighScoreManager" where
  "new_manager file = load_scores \<lparr>scores = [], score_file = file\<rparr>"

definition save_scores :: "HighScoreManager \<Rightarrow> HighScoreManager" where
  "save_scores m =
     m\<lparr>score_file :=
         Some (map (\<lambda>e. [entry_name e, str_int (entry_score e), str_int (entry_level e),
                            entry_date e]) (scores m))\<rparr>"

text \<open>\<open>add_score\<close>; \<open>now\<close> is the formatted current time.\<close>

definition add_score :: "string \<Rightarrow> int \<Rightarrow> int \<Rightarrow> string \<Rightarrow> HighScoreManager \<Rightarrow> HighScoreManager" where
  "add_score name sc lv now m =
     save_scores
       (m\<lparr>scores :=
            take 10
              (sort_scores
                 (scores m @
                  [\<lparr>entry_name = name, entry_score = sc, entry_level = lv, entry_date = now\<rparr>]))\<rparr>)"




subsection \<open>The game window: session state\<close>

text \<open>
  The fields of \<open>Plane1990\<close> that the simulation reads or writes. \<open>next_oid\<close> is the
  identity that the next constructed Plane or Bullet receives.
\<close>

record Session =
  state :: GameState
  animation_timer :: real
  walls :: "Wall list"
  player :: "Plane option"
  enemies :: "Plane list"
  bullets :: "Bullet list"
  enemy_bullets :: "Bullet list"
  camera :: Camera
  high_score_manager :: HighScoreManager
  current_level :: nat
  score :: int
  enemies_killed :: int
  time_survived :: real
  name_input_active :: bool
  name_input :: string
  free_spawn_areas :: "(int \<times> int) list"
  enemy_spawn_timer :: real
  game_time :: real
  level_start_time :: real
  is_shooting :: bool
  next_oid :: nat

text \<open>\<open>range(a, b, step)\<close> for a positive step.\<close>

definition py_range :: "int \<Rightarrow> int \<Rightarrow> int \<Rightarrow> int list" where
  "py_range a b st = map (\<lambda>k. a + st * int k) [0 ..< nat ((b - a + st - 1) div st)]"

subsubsection \<open>Level layout\<close>

text \<open>
  One iteration of the loop that places random wall clusters. The four draws of the
  iteration are \<open>(width_blocks, height_blocks, start_x, start_y)\<close>.
\<close>

definition cluster :: "int \<times> int \<times> int \<times> int \<Rightarrow> Wall list" where
  "cluster d =
     (case d of (width_blocks, height_blocks, start_x, start_y) \<Rightarrow>
        let min_x = WALL_SIZE * 3;
            max_x = SCREEN_WIDTH - WALL_SIZE * 3 - width_blocks * WALL_SIZE;
            min_y = WALL_SIZE * 3;
            max_y = SCREEN_HEIGHT - WALL_SIZE * 3 - height_blocks * WALL_SIZE
        in if min_x < max_x \<and> min_y < max_y
           then concat (map (\<lambda>i. concat (map (\<lambda>j.
                  let wx = start_x + i * WALL_SIZE;
                      wy = start_y + j * WALL_SIZE;
                      center_distance =
                        sqrt (of_int ((wx - SCREEN_WIDTH div 2)\<^sup>2 + (wy - SCREEN_HEIGHT div 2)\<^sup>2))
                  in if 150 < center_distance then [mk_wall wx wy] else [])
                  (py_range 0 height_blocks 1)))
                  (py_range 0 width_blocks 1))
           else [])"

definition create_level_maze :: "nat \<Rightarrow> (nat \<Rightarrow> int \<times> int \<times> int \<times> int) \<Rightarrow> Wall list" where
  "create_level_maze level draws =
     (let border_x =
            concat (map (\<lambda>x. [mk_wall x (WALL_SIZE div 2),
                                 mk_wall x (SCREEN_HEIGHT - WALL_SIZE div 2)])
              (py_range (WALL_SIZE div 2) (SCREEN_WIDTH - WALL_SIZE div 2 + 1) WALL_SIZE));
          border_y =
            concat (map (\<lambda>y. [mk_wall (WALL_SIZE div 2) y,
                                 mk_wall (SCREEN_WIDTH - WALL_SIZE div 2) y])
              (py_range (WALL_SIZE div 2) (SCREEN_HEIGHT - WALL_SIZE div 2 + 1) WALL_SIZE));
          wall_count = (if level < length LEVELS then level_walls (LEVELS ! level) else 6)
      in border_x @ border_y @ concat (map (\<lambda>k. cluster (draws k)) [0 ..< wall_count]))"

text \<open>\<open>_is_position_free\<close>: no wall rectangle, grown by the player's size, holds the point.\<close>

definition is_position_free :: "Wall list \<Rightarrow> int \<Rightarrow> int \<Rightarrow> bool" where
  "is_position_free ws x y =
     (\<not> list_ex (\<lambda>w. case get_rect w of (left, right, bottom, top') \<Rightarrow>
          left - PLAYER_SIZE \<le> x \<and> x \<le> right + PLAYER_SIZE \<and>
          bottom - PLAYER_SIZE \<le> y \<and> y \<le> top' + PLAYER_SIZE) ws)"

definition is_position_far_from_other_enemies :: "Plane list \<Rightarrow> int \<Rightarrow> int \<Rightarrow> real \<Rightarrow> bool" where
  "is_position_far_from_other_enemies es x y min_distance =
     (\<not> list_ex (\<lambda>e. distance (of_int x) (of_int y) (plane_x e) (plane_y e) < min_distance) es)"

definition calculate_free_areas :: "Wall list \<Rightarrow> (int \<times> int) list" where
  "calculate_free_areas ws =
     (let grid_size = 50
      in concat (map (\<lambda>x. concat (map (\<lambda>y.
           let is_free = \<not> list_ex (point_in_wall (of_int x) (of_int y)) ws;
               min_distance = of_int (PLAYER_SIZE * 2);
               too_close_to_wall =
                 list_ex (\<lambda>w. case get_rect w of (left, right, bottom, top') \<Rightarrow>
                    distance (of_int x) (of_int y)
                      (of_int (left + right) / 2) (of_int (bottom + top') / 2) < min_distance) ws
           in if is_free \<and> \<not> too_close_to_wall then [(x, y)] else [])
           (py_range (grid_size div 2) SCREEN_HEIGHT grid_size)))
           (py_range (grid_size div 2) SCREEN_WIDTH grid_size)))"

text \<open>
  The search loop of \<open>_find_valid_spawn_position\<close>; the accumulator is \<open>best_pos\<close> with
  \<open>best_distance\<close>, \<open>None\<close> for the initial pair of \<open>None\<close> and infinity.
\<close>

fun nearest_free ::
  "Wall list \<Rightarrow> int \<Rightarrow> int \<Rightarrow> (int \<times> int) list \<Rightarrow> ((int \<times> int) \<times> real) option \<Rightarrow>
     ((int \<times> int) \<times> real) option" where
  "nearest_free ws px py [] best = best"
| "nearest_free ws px py (pos # rest) best =
     (let d = distance (of_int (fst pos)) (of_int (snd pos)) (of_int px) (of_int py);
          closer = (case best of None \<Rightarrow> True | Some (bp, bd) \<Rightarrow> d < bd)
      in if closer \<and> is_position_free ws (fst pos) (snd pos)
         then nearest_free ws px py rest (Some (pos, d))
         else nearest_free ws px py rest best)"

definition find_valid_spawn_position ::
  "Wall list \<Rightarrow> (int \<times> int) list \<Rightarrow> int \<Rightarrow> int \<Rightarrow> int \<times> int" where
  "find_valid_spawn_position ws free preferred_x preferred_y =
     (if is_position_free ws preferred_x preferred_y then (preferred_x, preferred_y)
      else (case nearest_free ws preferred_x preferred_y free None of
              Some (pos, d) \<Rightarrow> pos
            | None \<Rightarrow> (case free of pos # rest \<Rightarrow> pos | [] \<Rightarrow> (preferred_x, preferred_y))))"

text \<open>The method \<open>setup\<close>; \<open>draws\<close> are the random draws of the layout.\<close>

definition session_setup :: "(nat \<Rightarrow> int \<times> int \<times> int \<times> int) \<Rightarrow> Session \<Rightarrow> Session" where
  "session_setup draws s =
     (let ws = create_level_maze (current_level s) draws;
          free = calculate_free_areas ws;
          player_spawn = find_valid_spawn_position ws free (SCREEN_WIDTH div 2) (SCREEN_HEIGHT div 2)
      in s\<lparr>walls := ws,
            free_spawn_areas := free,
            player := Some (new_plane (next_oid s) (of_int (fst player_spawn))
                              (of_int (snd player_spawn)) True),
            next_oid := next_oid s + 1,
            enemies := [], bullets := [], enemy_bullets := [],
            enemy_spawn_timer := ENEMY_SPAWN_DELAY,
            game_time := 0, level_start_time := 0,
            is_shooting := False, enemies_killed := 0\<rparr>)"

subsubsection \<open>Wave spawner\<close>

text \<open>The three placement conditions of one attempt, in the order the code tests them.\<close>

definition placement_ok :: "Session \<Rightarrow> int \<times> int \<Rightarrow> bool" where
  "placement_ok s pos =
     (is_position_free (walls s) (fst pos) (snd pos) \<and>
      is_position_far_from_other_enemies (enemies s) (fst pos) (snd pos) 150 \<and>
      (case player s of
         None \<Rightarrow> False
       | Some pl \<Rightarrow>
           250 < distance (of_int (fst pos)) (of_int (snd pos)) (plane_x pl) (plane_y pl)))"

text \<open>\<open>random.choice(self.free_spawn_areas)\<close> with the drawn index \<open>r\<close>.\<close>

definition choice :: "'a list \<Rightarrow> nat \<Rightarrow> 'a" where
  "choice xs r = xs ! (r mod length xs)"

text \<open>
  The loop \<open>for attempt in range(100)\<close> with its \<open>else\<close> clause: \<open>n\<close> attempts are left, the
  next attempt has number \<open>i\<close>, \<open>pick i\<close> is the index drawn by attempt \<open>i\<close>, and \<open>heading\<close> is
  the index drawn for the initial heading.
\<close>

fun spawn_attempts :: "nat \<Rightarrow> nat \<Rightarrow> (nat \<Rightarrow> nat) \<Rightarrow> nat \<Rightarrow> Session \<Rightarrow> Session" where
  "spawn_attempts 0 i pick heading s = s\<lparr>enemy_spawn_timer := ENEMY_SPAWN_DELAY / 2\<rparr>"
| "spawn_attempts (Suc n) i pick heading s =
     (let spawn_pos = choice (free_spawn_areas s) (pick i)
      in if placement_ok s spawn_pos
         then s\<lparr>enemies := enemies s @
                    [(new_plane (next_oid s) (of_int (fst spawn_pos)) (of_int (snd spawn_pos)) False)
                       \<lparr>angle := cardinal heading, target_angle := cardinal heading\<rparr>],
                 next_oid := next_oid s + 1,
                 enemy_spawn_timer := ENEMY_SPAWN_DELAY\<rparr>
         else spawn_attempts n (Suc i) pick heading s)"

definition spawn_enemies :: "real \<Rightarrow> nat \<Rightarrow> (nat \<Rightarrow> nat) \<Rightarrow> nat \<Rightarrow> Session \<Rightarrow> Session" where
  "spawn_enemies delta_time target_enemies pick heading s =
     (if target_enemies \<le> length (enemies s) then s
      else
        let s1 = s\<lparr>enemy_spawn_timer := enemy_spawn_timer s - delta_time\<rparr>
        in if enemy_spawn_timer s1 \<le> 0 \<and> free_spawn_areas s1 \<noteq> []
           then spawn_attempts 100 0 pick heading s1
           else s1)"

subsubsection \<open>Collision resolver\<close>

definition bullet_hits_enemy :: "Bullet \<Rightarrow> Plane \<Rightarrow> bool" where
  "bullet_hits_enemy b e =
     (distance (bullet_x b) (bullet_y b) (plane_x e) (plane_y e) < of_int (ENEMY_SIZE + BULLET_SIZE))"

text \<open>
  The inner loop \<open>for enemy in self.enemies[:]\<close> for one bullet, over the copy of the
  hostile list taken when the loop starts; the \<open>break\<close> ends it at the first hit.
\<close>

fun scan_enemies :: "Bullet \<Rightarrow> Plane list \<Rightarrow> Session \<Rightarrow> Session" where
  "scan_enemies b [] s = s"
| "scan_enemies b (e # es) s =
     (if bullet_hits_enemy b e
      then
        let s1 = (if obj_in bullet_oid (bullet_oid b) (bullets s)
                  then s\<lparr>bullets := remove_obj bullet_oid (bullet_oid b) (bullets s)\<rparr>
                  else s);
            s2 = s1\<lparr>camera := shake 8 0.2 (camera s1),
                     score := score s1 + 100,
                     enemies_killed := enemies_killed s1 + 1\<rparr>
        in if obj_in plane_oid (plane_oid e) (enemies s2)
           then s2\<lparr>enemies := remove_obj plane_oid (plane_oid e) (enemies s2)\<rparr>
           else s2
      else scan_enemies b es s)"

text \<open>The outer loop \<open>for bullet in self.bullets[:]\<close> over the copy of the bullet list.\<close>

fun bullets_vs_enemies :: "Bullet list \<Rightarrow> Session \<Rightarrow> Session" where
  "bullets_vs_enemies [] s = s"
| "bullets_vs_enemies (b # bs) s = bullets_vs_enemies bs (scan_enemies b (enemies s) s)"

definition enemy_bullet_hits_player :: "Plane \<Rightarrow> Bullet \<Rightarrow> bool" where
  "enemy_bullet_hits_player pl b =
     (distance (bullet_x b) (bullet_y b) (plane_x pl) (plane_y pl) < of_int (PLAYER_SIZE + BULLET_SIZE))"

definition enemy_rams_player :: "Plane \<Rightarrow> Plane \<Rightarrow> bool" where
  "enemy_rams_player pl e =
     (distance (plane_x e) (plane_y e) (plane_x pl) (plane_y pl) < of_int (PLAYER_SIZE + ENEMY_SIZE))"

definition check_collisions :: "Session \<Rightarrow> Session" where
  "check_collisions s =
     (case player s of
        None \<Rightarrow> s
      | Some pl \<Rightarrow>
          let s1 = bullets_vs_enemies (bullets s) s
          in if list_ex (enemy_bullet_hits_player pl) (enemy_bullets s1)
             then s1\<lparr>camera := shake 15 0.5 (camera s1),
                     state := GAME_OVER,
                     animation_timer := ANIMATION_DURATION\<rparr>
             else if list_ex (enemy_rams_player pl) (enemies s1)
             then s1\<lparr>camera := shake 20 0.6 (camera s1),
                     state := GAME_OVER,
                     animation_timer := ANIMATION_DURATION\<rparr>
             else s1)"

subsubsection \<open>One tick of the game\<close>

text \<open>The random draws that one call of \<open>on_update\<close> may consume.\<close>

record Draws =
  enemy_heading :: "nat \<Rightarrow> nat"
  enemy_delay :: "nat \<Rightarrow> real"
  spawn_pick :: "nat \<Rightarrow> nat"
  spawn_heading :: nat
  shake_x :: real
  shake_y :: real

text \<open>
  The loop over the hostiles: hostile number \<open>i\<close> is updated with its own draws, remembers
  the player's position and may fire. The result is the hostiles after the loop, the
  bullets to append to \<open>enemy_bullets\<close>, and the next free object identity.
\<close>

fun update_enemies ::
  "Wall list \<Rightarrow> Plane option \<Rightarrow> real \<Rightarrow> Draws \<Rightarrow> nat \<Rightarrow> nat \<Rightarrow> Plane list \<Rightarrow>
     Plane list \<times> Bullet list \<times> nat" where
  "update_enemies ws po delta_time dr i k [] = ([], [], k)"
| "update_enemies ws po delta_time dr i k (e # es) =
     (let e1 = update ws po delta_time (enemy_heading dr i) (enemy_delay dr i) e;
          e2 = (case po of
                  Some pl \<Rightarrow> e1\<lparr>last_player_pos := Some (plane_x pl, plane_y pl)\<rparr>
                | None \<Rightarrow> e1)
      in case shoot k e2 of
           (Some b, e3) \<Rightarrow>
             (case update_enemies ws po delta_time dr (Suc i) (Suc k) es of
                (es', bs', k') \<Rightarrow>
                  (e3 # es', (if \<not> is_player e3 then b # bs' else bs'), k'))
         | (None, e3) \<Rightarrow>
             (case update_enemies ws po delta_time dr (Suc i) k es of
                (es', bs', k') \<Rightarrow> (e3 # es', bs', k')))"

text \<open>The loops over the two bullet lists: a bullet that hits a wall or leaves the screen is removed.\<close>

fun update_bullets :: "Wall list \<Rightarrow> real \<Rightarrow> Bullet list \<Rightarrow> Bullet list" where
  "update_bullets ws delta_time [] = []"
| "update_bullets ws delta_time (b # bs) =
     (case bullet_update ws delta_time b of
        (destroyed, b1) \<Rightarrow>
          if destroyed \<or> is_off_screen b1 then update_bullets ws delta_time bs
          else b1 # update_bullets ws delta_time bs)"

text \<open>The player's part of the tick: update, then automatic fire while the button is held.\<close>

definition update_player :: "real \<Rightarrow> Session \<Rightarrow> Session" where
  "update_player delta_time s =
     (case player s of
        None \<Rightarrow> s
      | Some pl \<Rightarrow>
          let pl1 = update (walls s) None delta_time 0 0 pl
          in if is_shooting s \<and> 0 < laser_count pl1
             then (case shoot (next_oid s) pl1 of
                     (Some b, pl2) \<Rightarrow>
                       s\<lparr>player := Some pl2, bullets := bullets s @ [b],
                         next_oid := next_oid s + 1, camera := shake 3 0.1 (camera s)\<rparr>
                   | (None, pl2) \<Rightarrow> s\<lparr>player := Some pl2\<rparr>)
             else s\<lparr>player := Some pl1\<rparr>)"

definition update_game :: "real \<Rightarrow> Draws \<Rightarrow> Session \<Rightarrow> Session" where
  "update_game delta_time dr s =
     (let s1 = s\<lparr>game_time := game_time s + delta_time,
                  time_survived := time_survived s + delta_time\<rparr>;
          time_limit = (if current_level s1 < length LEVELS
                        then level_time (LEVELS ! current_level s1) else 60);
          target_enemies = (if current_level s1 < length LEVELS
                            then level_enemies (LEVELS ! current_level s1) else MAX_ENEMIES)
      in if of_int time_limit \<le> game_time s1 - level_start_time s1
         then s1\<lparr>score := score s1 + time_limit * 10,
                 state := LEVEL_COMPLETE,
                 animation_timer := ANIMATION_DURATION\<rparr>
         else
           let s2 = update_player delta_time s1;
               s3 = (case update_enemies (walls s2) (player s2) delta_time dr 0 (next_oid s2)
                            (enemies s2) of
                       (es, bs, k) \<Rightarrow>
                         s2\<lparr>enemies := es, enemy_bullets := enemy_bullets s2 @ bs,
                            next_oid := k\<rparr>);
               s4 = s3\<lparr>bullets := update_bullets (walls s3) delta_time (bullets s3)\<rparr>;
               s5 = s4\<lparr>enemy_bullets := update_bullets (walls s4) delta_time (enemy_bullets s4)\<rparr>;
               s6 = spawn_enemies delta_time target_enemies (spawn_pick dr) (spawn_heading dr) s5
           in check_collisions s6)"

definition on_update :: "real \<Rightarrow> Draws \<Rightarrow> Session \<Rightarrow> Session" where
  "on_update delta_time dr s =
     (let s1 = (case player s of
                  Some pl \<Rightarrow>
                    s\<lparr>camera := update_camera (Some pl) delta_time (shake_x dr) (shake_y dr)
                                   (camera s)\<rparr>
                | None \<Rightarrow> s);
          s2 = (if state s1 = PLAYING then update_game delta_time dr s1 else s1)
      in if 0 < animation_timer s2
         then s2\<lparr>animation_timer := animation_timer s2 - delta_time\<rparr>
         else s2)"

subsubsection \<open>Input handlers\<close>

text \<open>
  Key and button codes of the window library. The handlers receive a key as an int.
\<close>

definition key_R :: int where "key_R = 114"
definition key_W :: int where "key_W = 119"
definition key_S :: int where "key_S = 115"
definition key_A :: int where "key_A = 97"
definition key_D :: int where "key_D = 100"
definition key_ENTER :: int where "key_ENTER = 65293"
definition key_BACKSPACE :: int where "key_BACKSPACE = 65288"
definition key_SPACE :: int where "key_SPACE = 32"
definition MOUSE_BUTTON_LEFT :: int where "MOUSE_BUTTON_LEFT = 1"

text \<open>
  The test \<open>hasattr(key, 'char') and key.char\<close>: an int has no attribute \<open>char\<close>, so for
  every key the handler can receive there is no character to read.
\<close>

definition key_char :: "int \<Rightarrow> string option" where
  "key_char key = None"

text \<open>\<open>str.isalnum\<close> on code points below 256.\<close>

definition is_alnum_char :: "char \<Rightarrow> bool" where
  "is_alnum_char c =
     (let n = (of_char c :: nat)
      in (48 \<le> n \<and> n \<le> 57) \<or> (65 \<le> n \<and> n \<le> 90) \<or> (97 \<le> n \<and> n \<le> 122) \<or>
         n \<in> set [170, 178, 179, 181, 185, 186, 188, 189, 190] \<or>
         (192 \<le> n \<and> n \<le> 214) \<or> (216 \<le> n \<and> n \<le> 246) \<or> (248 \<le> n \<and> n \<le> 255))"

definition isalnum :: "string \<Rightarrow> bool" where
  "isalnum str = (str \<noteq> [] \<and> list_all is_alnum_char str)"

text \<open>\<open>on_key_press\<close>; \<open>now\<close> is the formatted current time, read when a score is stored.\<close>

definition on_key_press :: "int \<Rightarrow> int \<Rightarrow> string \<Rightarrow> Session \<Rightarrow> Session" where
  "on_key_press key modifiers now s =
     (if state s = READY \<and> key = key_R
      then s\<lparr>state := PLAYING, level_start_time := game_time s,
             animation_timer := ANIMATION_DURATION\<rparr>
      else if state s = PLAYING \<and> player s \<noteq> None
      then (if key = key_W then s\<lparr>player := map_option (set_movement True False False False) (player s)\<rparr>
            else if key = key_S then s\<lparr>player := map_option (set_movement False True False False) (player s)\<rparr>
            else if key = key_A then s\<lparr>player := map_option (set_movement False False True False) (player s)\<rparr>
            else if key = key_D then s\<lparr>player := map_option (set_movement False False False True) (player s)\<rparr>
            else s)
      else if state s = WIN \<and> name_input_active s
      then (if key = key_ENTER
            then (if name_input s \<noteq> []
                  then s\<lparr>high_score_manager :=
                           add_score (name_input s) (score s) (int (length LEVELS)) now
                             (high_score_manager s),
                         name_input_active := False,
                         name_input := []\<rparr>
                  else s)
            else if key = key_BACKSPACE then s\<lparr>name_input := butlast (name_input s)\<rparr>
            else if key = key_SPACE then s\<lparr>name_input := name_input s @ '' ''\<rparr>
            else (case key_char key of
                    Some ch \<Rightarrow>
                      if ch \<noteq> [] \<and> length (name_input s) < 15 \<and> isalnum ch
                      then s\<lparr>name_input := name_input s @ ch\<rparr>
                      else s
                  | None \<Rightarrow> s))
      else s)"

definition on_key_release :: "int \<Rightarrow> int \<Rightarrow> Session \<Rightarrow> Session" where
  "on_key_release key modifiers s =
     (if state s = PLAYING \<and> player s \<noteq> None
      then (if key = key_W \<or> key = key_S \<or> key = key_A \<or> key = key_D
            then s\<lparr>player := map_option (set_movement False False False False) (player s)\<rparr>
            else s)
      else s)"

text \<open>
  \<open>on_mouse_press\<close>; \<open>d1\<close> and \<open>d2\<close> are the layout draws of the first and of a second call
  of \<open>setup\<close> (only the level-complete branch can call it twice).
\<close>

definition restart_run :: "Session \<Rightarrow> Session" where
  "restart_run s = s\<lparr>current_level := 0, score := 0, enemies_killed := 0, time_survived := 0\<rparr>"

definition on_mouse_press ::
  "real \<Rightarrow> real \<Rightarrow> int \<Rightarrow> int \<Rightarrow> (nat \<Rightarrow> int \<times> int \<times> int \<times> int) \<Rightarrow>
     (nat \<Rightarrow> int \<times> int \<times> int \<times> int) \<Rightarrow> Session \<Rightarrow> Session" where
  "on_mouse_press x y button modifiers d1 d2 s =
     (if 0 < animation_timer s then s
      else if state s = MENU
      then (if is_clicked button_start x y
            then s\<lparr>state := RULES, animation_timer := ANIMATION_DURATION\<rparr>
            else if is_clicked button_high_scores x y
            then s\<lparr>state := HIGH_SCORES, animation_timer := ANIMATION_DURATION\<rparr>
            else s)
      else if state s = RULES
      then (if is_clicked button_continue x y
            then (session_setup d1 (restart_run s))
                   \<lparr>state := READY, animation_timer := ANIMATION_DURATION\<rparr>
            else s)
      else if state s = GAME_OVER
      then (if is_clicked button_restart x y
            then (session_setup d1 s)\<lparr>state := RULES, animation_timer := ANIMATION_DURATION\<rparr>
            else if is_clicked button_menu x y
            then (session_setup d1 s)\<lparr>state := MENU, animation_timer := ANIMATION_DURATION\<rparr>
            else s)
      else if state s = WIN \<and> \<not> name_input_active s
      then (if is_clicked button_win_restart x y
            then (session_setup d1 (restart_run s))
                   \<lparr>state := RULES, animation_timer := ANIMATION_DURATION\<rparr>
            else if is_clicked button_win_menu x y
            then (session_setup d1 s)\<lparr>state := MENU, animation_timer := ANIMATION_DURATION\<rparr>
            else if is_clicked button_high_scores x y
            then s\<lparr>state := HIGH_SCORES, animation_timer := ANIMATION_DURATION\<rparr>
            else s)
      else if state s = LEVEL_COMPLETE
      then
        let s1 = (if current_level s + 1 < length LEVELS \<and> is_clicked button_next_level x y
                  then (session_setup d1 (s\<lparr>current_level := current_level s + 1\<rparr>))
                         \<lparr>state := READY, animation_timer := ANIMATION_DURATION\<rparr>
                  else s)
        in if is_clicked button_menu x y
           then (session_setup d2 s1)\<lparr>state := MENU, animation_timer := ANIMATION_DURATION\<rparr>
           else s1
      else if state s = HIGH_SCORES
      then (if is_clicked button_back_to_menu x y
            then s\<lparr>state := MENU, animation_timer := ANIMATION_DURATION\<rparr>
            else s)
      else if state s = PLAYING \<and> button = MOUSE_BUTTON_LEFT
      then s\<lparr>is_shooting := True\<rparr>
      else s)"

definition on_mouse_release :: "real \<Rightarrow> real \<Rightarrow> int \<Rightarrow> int \<Rightarrow> Session \<Rightarrow> Session" where
  "on_mouse_release x y button modifiers s =
     (if state s = PLAYING \<and> button = MOUSE_BUTTON_LEFT then s\<lparr>is_shooting := False\<rparr> else s)"

definition on_mouse_motion :: "real \<Rightarrow> real \<Rightarrow> real \<Rightarrow> real \<Rightarrow> Session \<Rightarrow> Session" where
  "on_mouse_motion x y dx dy s =
     (case player s of
        Some pl \<Rightarrow>
          if state s = PLAYING
          then
            let world_x = x + offset_x (camera s);
                world_y = y + offset_y (camera s)
            in s\<lparr>player :=
                   Some (pl\<lparr>angle := degrees (atan2 (world_y - plane_y pl) (world_x - plane_x pl))\<rparr>)\<rparr>
          else s
      | None \<Rightarrow> s)"

subsubsection \<open>The session as a state machine\<close>

text \<open>
  The window after \<open>__init__\<close>, which ends with a first call of \<open>setup\<close>, and after \<open>main\<close>,
  which calls \<open>setup\<close> once more before the event loop starts. \<open>file\<close> is the score file.
\<close>

definition new_session ::
  "string list list option \<Rightarrow> (nat \<Rightarrow> int \<times> int \<times> int \<times> int) \<Rightarrow> Session" where
  "new_session file d =
     session_setup d
       \<lparr>state = MENU, animation_timer = 0, walls = [], player = None, enemies = [],
        bullets = [], enemy_bullets = [],
        camera = new_camera SCREEN_WIDTH SCREEN_HEIGHT,
        high_score_manager = new_manager file,
        current_level = 0, score = 0, enemies_killed = 0, time_survived = 0,
        name_input_active = False, name_input = [],
        free_spawn_areas = [], enemy_spawn_timer = ENEMY_SPAWN_DELAY,
        game_time = 0, level_start_time = 0, is_shooting = False, next_oid = 0\<rparr>"

definition main ::
  "string list list option \<Rightarrow> (nat \<Rightarrow> int \<times> int \<times> int \<times> int) \<Rightarrow>
     (nat \<Rightarrow> int \<times> int \<times> int \<times> int) \<Rightarrow> Session" where
  "main file d1 d2 = session_setup d2 (new_session file d1)"

text \<open>The callbacks the event loop may invoke, with their arguments and random draws.\<close>

datatype Event =
    Update real Draws
  | KeyPress int int string
  | KeyRelease int int
  | MousePress real real int int "nat \<Rightarrow> int \<times> int \<times> int \<times> int" "nat \<Rightarrow> int \<times> int \<times> int \<times> int"
  | MouseRelease real real int int
  | MouseMotion real real real real

fun handle :: "Session \<Rightarrow> Event \<Rightarrow> Session" where
  "handle s (Update delta_time dr) = on_update delta_time dr s"
| "handle s (KeyPress key modifiers now) = on_key_press key modifiers now s"
| "handle s (KeyRelease key modifiers) = on_key_release key modifiers s"
| "handle s (MousePress x y button modifiers d1 d2) = on_mouse_press x y button modifiers d1 d2 s"
| "handle s (MouseRelease x y button modifiers) = on_mouse_release x y button modifiers s"
| "handle s (MouseMotion x y dx dy) = on_mouse_motion x y dx dy s"

inductive reachable :: "Session \<Rightarrow> bool" where
  start: "reachable (main file d1 d2)"
| step: "reachable s \<Longrightarrow> reachable (handle s ev)"

subsubsection \<open>Properties of a session\<close>

text \<open>
  The hostile target of a level, as \<open>_update_game\<close> reads it from the level table, and the
  two properties that every reachable session is shown to have: the hostile count is
  within the target of the current level, and the player lies within the screen.
\<close>

definition target_enemies_of :: "nat \<Rightarrow> nat" where
  "target_enemies_of level =
     (if level < length LEVELS then level_enemies (LEVELS ! level) else MAX_ENEMIES)"

definition enemy_cap :: "Session \<Rightarrow> bool" where
  "enemy_cap s \<longleftrightarrow> length (enemies s) \<le> target_enemies_of (current_level s)"

definition player_in_bounds :: "Session \<Rightarrow> bool" where
  "player_in_bounds s \<longleftrightarrow> (case player s of None \<Rightarrow> True | Some pl \<Rightarrow> in_bounds pl)"

subsection \<open>A session for examples\<close>

text \<open>A playing session with nothing in it, from which the examples below are built.\<close>

definition blank_session :: Session where
  "blank_session =
     \<lparr>state = PLAYING, animation_timer = 0, walls = [], player = None, enemies = [],
      bullets = [], enemy_bullets = [],
      camera = new_camera SCREEN_WIDTH SCREEN_HEIGHT,
      high_score_manager = \<lparr>scores = [], score_file = None\<rparr>,
      current_level = 0, score = 0, enemies_killed = 0, time_survived = 0,
      name_input_active = False, name_input = [],
      free_spawn_areas = [], enemy_spawn_timer = ENEMY_SPAWN_DELAY,
      game_time = 0, level_start_time = 0, is_shooting = False, next_oid = 10\<rparr>"

text \<open>Draws that are all zero.\<close>

definition zero_draws :: Draws where
  "zero_draws =
     \<lparr>enemy_heading = (\<lambda>i. 0), enemy_delay = (\<lambda>i. 0), spawn_pick = (\<lambda>i. 0),
      spawn_heading = 0, shake_x = 0, shake_y = 0\<rparr>"

section \<open>Craft motion\<close>

lemma can_move_iff:
  "can_move sz nx ny ws \<longleftrightarrow> (\<forall>w \<in> set ws. \<not> wall_blocks sz nx ny w)"
  by (induction ws) auto

lemma wall_blocks_centre:
  "wall_blocks sz nx ny w \<longleftrightarrow>
     \<bar>nx - of_int (wall_x w)\<bar> < of_int (wall_width w div 2) + of_int sz \<and>
     \<bar>ny - of_int (wall_y w)\<bar> < of_int (wall_height w div 2) + of_int sz"
  by (simp add: wall_blocks_def get_rect_def Let_def)

lemma move_turn_position:
  "plane_x (move_turn p) = plane_x p" "plane_y (move_turn p) = plane_y p"
  by (simp_all add: move_turn_def)

text \<open>
  Claim C1. One call of \<open>move\<close>, for the player and for a hostile alike, either leaves the
  position as it was or sets both coordinates to the candidate; the candidate is taken
  exactly when it lies in \<open>[size, SCREEN_WIDTH - size] \<times> [size, SCREEN_HEIGHT - size]\<close>
  and every wall is, on at least one axis, at least its half-extent plus the craft size
  away from the candidate (measured from the wall's centre). No call moves one axis only.
\<close>

theorem move_all_or_nothing:
  "(plane_x (move ws p), plane_y (move ws p)) =
     (if of_int (plane_size p) \<le> move_new_x p \<and> move_new_x p \<le> of_int (SCREEN_WIDTH - plane_size p) \<and>
         of_int (plane_size p) \<le> move_new_y p \<and> move_new_y p \<le> of_int (SCREEN_HEIGHT - plane_size p) \<and>
         (\<forall>w \<in> set ws.
            of_int (wall_width w div 2) + of_int (plane_size p) \<le> \<bar>move_new_x p - of_int (wall_x w)\<bar> \<or>
            of_int (wall_height w div 2) + of_int (plane_size p) \<le> \<bar>move_new_y p - of_int (wall_y w)\<bar>)
      then (move_new_x p, move_new_y p)
      else (plane_x p, plane_y p))"
proof -
  have clear: "can_move (plane_size p) (move_new_x p) (move_new_y p) ws \<longleftrightarrow>
        (\<forall>w \<in> set ws.
            of_int (wall_width w div 2) + of_int (plane_size p) \<le> \<bar>move_new_x p - of_int (wall_x w)\<bar> \<or>
            of_int (wall_height w div 2) + of_int (plane_size p) \<le> \<bar>move_new_y p - of_int (wall_y w)\<bar>)"
    unfolding can_move_iff wall_blocks_centre by (simp add: not_less)
  then show ?thesis
    unfolding move_def Let_def by (auto simp: move_turn_position)
qed

theorem move_all_or_nothing_witness:
  "(plane_x (move [mk_wall 16 16] (new_plane 1 100 100 False)),
    plane_y (move [mk_wall 16 16] (new_plane 1 100 100 False))) = (101.5, 100) \<and>
   (plane_x (move [mk_wall 130 100] (new_plane 1 100 100 False)),
    plane_y (move [mk_wall 130 100] (new_plane 1 100 100 False))) = (100, 100) \<and>
   (plane_x (move [] ((new_plane 0 400 300 True)\<lparr>moving_up := True\<rparr>)),
    plane_y (move [] ((new_plane 0 400 300 True)\<lparr>moving_up := True\<rparr>))) = (400, 303)"
  using move_all_or_nothing [where ws = "[mk_wall 16 16]" and p = "new_plane 1 100 100 False"]
    move_all_or_nothing [where ws = "[mk_wall 130 100]" and p = "new_plane 1 100 100 False"]
    move_all_or_nothing [where ws = "[]" and p = "(new_plane 0 400 300 True)\<lparr>moving_up := True\<rparr>"]
  by (simp add: move_new_x_def move_new_y_def move_turn_def move_dx_def move_dy_def
        new_plane_def mk_wall_def radians_def degrees_def atan2_def
        ENEMY_SPEED_def ENEMY_SIZE_def PLAYER_SPEED_def PLAYER_SIZE_def WALL_SIZE_def
        SCREEN_WIDTH_def SCREEN_HEIGHT_def)

text \<open>Screen containment: a craft within the screen stays within it.\<close>

lemma move_keeps_size: "plane_size (move ws p) = plane_size p"
  by (simp add: move_def move_turn_def Let_def)

lemma move_keeps_in_bounds: "in_bounds p \<Longrightarrow> in_bounds (move ws p)"
  by (simp add: in_bounds_def move_def move_turn_def Let_def)

section \<open>Angles\<close>

lemma distance_horizontal: "distance x1 y x2 y = \<bar>x1 - x2\<bar>"
  by (simp add: distance_def)

lemma fmod_range: "0 < m \<Longrightarrow> 0 \<le> fmod a m \<and> fmod a m < m"
proof -
  assume m: "0 < m"
  have lo: "of_int \<lfloor>a / m\<rfloor> \<le> a / m" and hi: "a / m < of_int \<lfloor>a / m\<rfloor> + 1" by linarith+
  from lo m have "of_int \<lfloor>a / m\<rfloor> * m \<le> a" by (simp only: pos_le_divide_eq)
  moreover from hi m have "a < (of_int \<lfloor>a / m\<rfloor> + 1) * m" by (simp only: pos_divide_less_eq)
  ultimately show ?thesis by (simp add: fmod_def algebra_simps)
qed

lemma angle_diff_range: "- 180 < angle_diff a b \<and> angle_diff a b \<le> 180"
  using fmod_range [of 360 "a - b"] by (auto simp: angle_diff_def Let_def)

lemma angle_diff_congruent: "\<exists>k::int. a - b = angle_diff a b + 360 * of_int k"
proof (cases "180 < fmod (a - b) 360")
  case True
  then have "a - b = angle_diff a b + 360 * of_int (\<lfloor>(a - b) / 360\<rfloor> + 1)"
    by (simp add: angle_diff_def Let_def fmod_def)
  then show ?thesis by (rule exI)
next
  case False
  then have "a - b = angle_diff a b + 360 * of_int \<lfloor>(a - b) / 360\<rfloor>"
    by (simp add: angle_diff_def Let_def fmod_def)
  then show ?thesis by (rule exI)
qed

lemma abs_angle_diff_eq: "abs_angle_diff a b = \<bar>angle_diff a b\<bar>"
  using fmod_range [of 360 "a - b"] by (auto simp: angle_diff_def abs_angle_diff_def Let_def)

lemma distance_lt_iff: "0 < r \<Longrightarrow> distance x1 y1 x2 y2 < r \<longleftrightarrow> (x1 - x2)\<^sup>2 + (y1 - y2)\<^sup>2 < r\<^sup>2"
  unfolding distance_def
  by (metis abs_of_pos real_sqrt_abs real_sqrt_less_iff)

lemma distance_gt_iff: "0 \<le> r \<Longrightarrow> r < distance x1 y1 x2 y2 \<longleftrightarrow> r\<^sup>2 < (x1 - x2)\<^sup>2 + (y1 - y2)\<^sup>2"
  unfolding distance_def
  by (metis abs_of_nonneg real_sqrt_abs real_sqrt_less_iff)

section \<open>Line of sight\<close>

lemma wall_hit_iff: "wall_hit px py ws \<longleftrightarrow> (\<exists>w \<in> set ws. point_in_wall px py w)"
  by (induction ws) auto

lemma sight_blocked_iff:
  "sight_blocked e pl ws steps is \<longleftrightarrow>
     (\<exists>i \<in> set is. \<exists>w \<in> set ws. point_in_wall (check_x e pl steps i) (check_y e pl steps i) w)"
  by (induction "is") (auto simp: wall_hit_iff)

lemma visibility_flag:
  "check_player_visibility (Some pl) ws e =
     e\<lparr>can_see_player :=
         (\<not> 300 < sqrt ((plane_x pl - plane_x e)\<^sup>2 + (plane_y pl - plane_y e)\<^sup>2) \<and>
          \<not> 45 < abs_angle_diff
                    (degrees (atan2 (plane_y pl - plane_y e) (plane_x pl - plane_x e))) (angle e) \<and>
          \<not> sight_blocked e pl ws
               (nat \<lfloor>sqrt ((plane_x pl - plane_x e)\<^sup>2 + (plane_y pl - plane_y e)\<^sup>2) / 10\<rfloor>)
               [1 ..< nat \<lfloor>sqrt ((plane_x pl - plane_x e)\<^sup>2 + (plane_y pl - plane_y e)\<^sup>2) / 10\<rfloor> + 1])\<rparr>"
  by (simp add: check_player_visibility_def Let_def)

lemma samples_set: "set [1 ..< steps + 1] = {1 .. steps}"
  by auto

lemma sample_spacing:
  assumes "10 \<le> (d::real)"
  shows "10 \<le> d / of_nat (nat \<lfloor>d / 10\<rfloor>) \<and> d / of_nat (nat \<lfloor>d / 10\<rfloor>) < 20"
proof -
  define n :: real where "n = of_int \<lfloor>d / 10\<rfloor>"
  have f: "1 \<le> \<lfloor>d / 10\<rfloor>" using assms by (simp add: le_floor_iff)
  then have nn: "real (nat \<lfloor>d / 10\<rfloor>) = n" by (simp add: n_def)
  have one: "1 \<le> n" using f by (simp add: n_def)
  have "n \<le> d / 10" "d / 10 < n + 1" unfolding n_def by linarith+
  then have b: "10 * n \<le> d" "d < 10 * n + 10" by simp_all
  have pos: "0 < n" using one by linarith
  have "10 * n \<le> d" by (rule b)
  then have "10 \<le> d / n" using pos by (simp only: pos_le_divide_eq)
  moreover have "d < 20 * n" using b one by linarith
  then have "d / n < 20" using pos by (simp only: pos_divide_less_eq)
  ultimately show ?thesis by (simp add: nn)
qed

text \<open>
  Claim C5. The visibility check writes \<open>can_see_player\<close> and nothing else. The flag is
  false when the distance to the player exceeds 300 (a distance of exactly 300 passes this
  test), false when the absolute shortest angular difference between the bearing to the
  player and the heading exceeds 45 degrees, and otherwise it is false exactly when one of
  the sample points \<open>i / steps\<close> of the way to the player, for \<open>i\<close> from 1 to
  \<open>steps = int(distance / 10)\<close>, lies in a wall rectangle (borders included).
\<close>

theorem visibility_rule:
  "check_player_visibility (Some pl) ws e =
     e\<lparr>can_see_player :=
         (let d = distance (plane_x pl) (plane_y pl) (plane_x e) (plane_y e);
              bearing = degrees (atan2 (plane_y pl - plane_y e) (plane_x pl - plane_x e));
              steps = nat \<lfloor>d / 10\<rfloor>
          in \<not> 300 < d \<and> \<not> 45 < \<bar>angle_diff bearing (angle e)\<bar> \<and>
             \<not> (\<exists>i \<in> {1 .. steps}. \<exists>w \<in> set ws.
                   point_in_wall
                     (plane_x e + (plane_x pl - plane_x e) * of_nat i / of_nat steps)
                     (plane_y e + (plane_y pl - plane_y e) * of_nat i / of_nat steps) w))\<rparr>"
  unfolding visibility_flag sight_blocked_iff samples_set abs_angle_diff_eq
    check_x_def check_y_def distance_def Let_def ..

theorem visibility_rule_witness:
  "can_see_player (check_player_visibility (Some (new_plane 0 400 100 True)) []
       (new_plane 1 100 100 False)) \<and>
   \<not> can_see_player (check_player_visibility (Some (new_plane 0 401 100 True)) []
       (new_plane 1 100 100 False)) \<and>
   \<not> can_see_player (check_player_visibility (Some (new_plane 0 400 100 True)) [mk_wall 250 100]
       (new_plane 1 100 100 False))"
proof -
  have inside: "\<exists>i\<in>{1..30::nat}. point_in_wall (100 + 300 * real i / 30) 100 (mk_wall 250 100)"
    by (rule bexI [of _ 15]) (simp_all add: point_in_wall_def get_rect_def mk_wall_def WALL_SIZE_def)
  show ?thesis
    using inside
    by (simp add: visibility_rule
        distance_horizontal new_plane_def atan2_def degrees_def angle_diff_def fmod_def)
qed

section \<open>Hostile pursuit\<close>

lemma visibility_keeps:
  "angle (check_player_visibility po ws e) = angle e"
  "target_angle (check_player_visibility po ws e) = target_angle e"
  "is_homing (check_player_visibility po ws e) = is_homing e"
  "homing_timer (check_player_visibility po ws e) = homing_timer e"
  "direction_change_timer (check_player_visibility po ws e) = direction_change_timer e"
  "shoot_timer (check_player_visibility po ws e) = shoot_timer e"
  by (cases po; simp add: check_player_visibility_def Let_def)+

lemma update_enemy_fields:
  defines "branch \<equiv> \<lambda>pl dt c u e.
     if distance (plane_x pl) (plane_y pl) (plane_x e) (plane_y e) < 200
     then homing_step (plane_x pl - plane_x e) (plane_y pl - plane_y e) dt
            (e\<lparr>direction_change_timer := direction_change_timer e - dt\<rparr>)
     else patrol_step c u (e\<lparr>direction_change_timer := direction_change_timer e - dt\<rparr>)"
  shows "angle (update_enemy ws (Some pl) dt c u e) = angle (branch pl dt c u e)"
    and "target_angle (update_enemy ws (Some pl) dt c u e) = target_angle (branch pl dt c u e)"
    and "is_homing (update_enemy ws (Some pl) dt c u e) = is_homing (branch pl dt c u e)"
    and "homing_timer (update_enemy ws (Some pl) dt c u e) = homing_timer (branch pl dt c u e)"
    and "direction_change_timer (update_enemy ws (Some pl) dt c u e) =
           direction_change_timer (branch pl dt c u e)"
  by (simp_all add: update_enemy_def branch_def Let_def visibility_keeps distance_def)

lemma homing_step_fields:
  "is_homing (homing_step dx dy dt e)"
  "homing_timer (homing_step dx dy dt e) =
     (if 0 < (if is_homing e then homing_timer e else 1)
      then (if is_homing e then homing_timer e else 1) - dt
      else (if is_homing e then homing_timer e else 1))"
  by (simp_all add: homing_step_def Let_def ENEMY_HOMING_DELAY_def)

lemma homing_step_waiting:
  assumes "0 < homing_timer (homing_step dx dy dt e)"
  shows "angle (homing_step dx dy dt e) = angle e"
    and "target_angle (homing_step dx dy dt e) = target_angle e"
    and "direction_change_timer (homing_step dx dy dt e) = direction_change_timer e"
  using assms by (simp_all add: homing_step_def Let_def ENEMY_HOMING_DELAY_def split: if_splits)

lemma homing_step_turning:
  assumes "homing_timer (homing_step dx dy dt e) \<le> 0"
  shows "angle (homing_step dx dy dt e) = angle e + 0.2 * angle_diff (degrees (atan2 dy dx)) (angle e)"
    and "target_angle (homing_step dx dy dt e) = degrees (atan2 dy dx)"
    and "direction_change_timer (homing_step dx dy dt e) = 0"
  using assms by (simp_all add: homing_step_def Let_def ENEMY_HOMING_DELAY_def split: if_splits)

lemma patrol_step_fields:
  "\<not> is_homing (patrol_step c u e)" "homing_timer (patrol_step c u e) = 1"
  by (simp_all add: patrol_step_def Let_def ENEMY_HOMING_DELAY_def)

lemma move_keeps_hostile_heading: "\<not> is_player p \<Longrightarrow> angle (move ws p) = angle p"
  by (simp add: move_def move_turn_def Let_def)

text \<open>
  Claim C4. Let \<open>d\<close> be the hostile's distance to the player in one call of
  \<open>_update_enemy\<close>. When \<open>d < 200\<close> the hostile is homing afterwards. Its homing timer
  starts from 1.0 second if it was not homing before (from its old value otherwise), and
  the countdown of the same call is already taken off: the timer ends at \<open>t1\<close>. While
  \<open>t1\<close> is positive the heading and the target heading stay as they were; once \<open>t1\<close> is
  zero or below, the heading grows by 0.2 times the signed shortest angular difference
  from the heading to the bearing of the player, the target heading becomes that bearing
  and the random-direction timer is set to zero. When \<open>d \<ge> 200\<close> the hostile is not homing
  afterwards and its homing timer is 1.0 second.
\<close>

theorem homing_rule:
  "let d = distance (plane_x pl) (plane_y pl) (plane_x e) (plane_y e);
       bearing = degrees (atan2 (plane_y pl - plane_y e) (plane_x pl - plane_x e));
       t0 = (if is_homing e then homing_timer e else 1);
       t1 = (if 0 < t0 then t0 - dt else t0);
       e' = update_enemy ws (Some pl) dt c u e
   in (d < 200 \<longrightarrow>
         is_homing e' \<and> homing_timer e' = t1 \<and>
         (0 < t1 \<longrightarrow> angle e' = angle e \<and> target_angle e' = target_angle e) \<and>
         (t1 \<le> 0 \<longrightarrow>
            angle e' = angle e + 0.2 * angle_diff bearing (angle e) \<and>
            target_angle e' = bearing \<and> direction_change_timer e' = 0)) \<and>
      (200 \<le> d \<longrightarrow> \<not> is_homing e' \<and> homing_timer e' = 1)"
proof -
  define e1 where "e1 = e\<lparr>direction_change_timer := direction_change_timer e - dt\<rparr>"
  define dx where "dx = plane_x pl - plane_x e"
  define dy where "dy = plane_y pl - plane_y e"
  define h where "h = homing_step dx dy dt e1"
  define t1 where "t1 = (if 0 < (if is_homing e then homing_timer e else 1)
      then (if is_homing e then homing_timer e else 1) - dt
      else (if is_homing e then homing_timer e else 1))"
  have e1: "is_homing e1 = is_homing e" "homing_timer e1 = homing_timer e"
    "angle e1 = angle e" "target_angle e1 = target_angle e"
    by (simp_all add: e1_def)
  have t: "homing_timer h = t1"
    unfolding h_def t1_def homing_step_fields e1 ..
  define br where "br = (if distance (plane_x pl) (plane_y pl) (plane_x e) (plane_y e) < 200
     then homing_step (plane_x pl - plane_x e) (plane_y pl - plane_y e) dt
            (e\<lparr>direction_change_timer := direction_change_timer e - dt\<rparr>)
     else patrol_step c u (e\<lparr>direction_change_timer := direction_change_timer e - dt\<rparr>))"
  have near: "br = h"
    if "distance (plane_x pl) (plane_y pl) (plane_x e) (plane_y e) < 200"
    using that by (simp add: br_def h_def e1_def dx_def dy_def)
  have far: "br = patrol_step c u e1"
    if "200 \<le> distance (plane_x pl) (plane_y pl) (plane_x e) (plane_y e)"
    using that by (simp add: br_def e1_def)
  have wait: "angle h = angle e \<and> target_angle h = target_angle e" if "0 < t1"
    using that homing_step_waiting [of dx dy dt e1] t e1 by (simp add: h_def)
  have turn: "angle h = angle e + 0.2 * angle_diff (degrees (atan2 dy dx)) (angle e) \<and>
      target_angle h = degrees (atan2 dy dx) \<and> direction_change_timer h = 0" if "t1 \<le> 0"
    using that homing_step_turning [of dx dy dt e1] t e1 by (simp add: h_def)
  have hom: "is_homing h" by (simp add: h_def homing_step_fields)
  show ?thesis
    unfolding Let_def update_enemy_fields br_def [symmetric]
    using near far wait turn hom t patrol_step_fields [of c u e1]
    by (simp add: t1_def dx_def dy_def)
qed

theorem homing_rule_witness:
  "homing_timer (update_enemy [] (Some (new_plane 0 200 100 True)) (1/100) 0 0
      (new_plane 1 100 100 False)) = 99/100 \<and>
   angle (update_enemy [] (Some (new_plane 0 200 100 True)) (1/100) 0 0
      ((new_plane 1 100 100 False)\<lparr>angle := 90\<rparr>)) = 90 \<and>
   angle (update_enemy [] (Some (new_plane 0 200 100 True)) (1/100) 0 0
      ((new_plane 1 100 100 False)\<lparr>angle := 90, is_homing := True, homing_timer := 1/200\<rparr>)) = 72 \<and>
   homing_timer (update_enemy [] (Some (new_plane 0 400 100 True)) (1/100) 0 0
      ((new_plane 1 100 100 False)\<lparr>is_homing := True, homing_timer := 1/200\<rparr>)) = 1"
  using homing_rule [where pl = "new_plane 0 200 100 True" and e = "new_plane 1 100 100 False"
      and dt = "1/100" and c = 0 and u = 0 and ws = "[]"]
    homing_rule [where pl = "new_plane 0 200 100 True"
      and e = "(new_plane 1 100 100 False)\<lparr>angle := 90\<rparr>"
      and dt = "1/100" and c = 0 and u = 0 and ws = "[]"]
    homing_rule [where pl = "new_plane 0 200 100 True"
      and e = "(new_plane 1 100 100 False)\<lparr>angle := 90, is_homing := True, homing_timer := 1/200\<rparr>"
      and dt = "1/100" and c = 0 and u = 0 and ws = "[]"]
    homing_rule [where pl = "new_plane 0 400 100 True"
      and e = "(new_plane 1 100 100 False)\<lparr>is_homing := True, homing_timer := 1/200\<rparr>"
      and dt = "1/100" and c = 0 and u = 0 and ws = "[]"]
  by (simp add: distance_horizontal new_plane_def atan2_def degrees_def angle_diff_def fmod_def
      Let_def)

section \<open>Loading the high scores\<close>




lemma sort_scores_descending: "sorted (map (\<lambda>e. - entry_score e) (sort_scores xs))"
  by (simp add: sort_scores_def)

lemma sort_scores_stable:
  "filter (\<lambda>e. entry_score e = k) (sort_scores xs) = filter (\<lambda>e. entry_score e = k) xs"
  using sort_key_stable [of "\<lambda>e. - entry_score e" "- k" xs] by (simp add: sort_scores_def)

lemma sort_scores_same_entries:
  "set (sort_scores xs) = set xs" "length (sort_scores xs) = length xs"
  by (simp_all add: sort_scores_def)




section \<open>Collision resolver\<close>

lemma remove_obj_absent: "\<not> obj_in ident k xs \<Longrightarrow> remove_obj ident k xs = xs"
  by (induction xs) (auto simp: obj_in_def)

lemma remove_obj_length: "obj_in ident k xs \<Longrightarrow> Suc (length (remove_obj ident k xs)) = length xs"
  by (induction xs) (auto simp: obj_in_def)

lemma remove_obj_mset:
  "obj_in ident k xs \<Longrightarrow>
   mset (map ident (remove_obj ident k xs)) = mset (map ident xs) - {#k#}"
  by (induction xs) (auto simp: obj_in_def)

lemma find_hit_member: "find P es = Some e \<Longrightarrow> e \<in> set es \<and> P e"
  by (induction es) (auto split: if_splits)

lemma scan_enemies_find:
  "scan_enemies b es s =
     (case find (bullet_hits_enemy b) es of
        None \<Rightarrow> s
      | Some e \<Rightarrow>
          s\<lparr>bullets := remove_obj bullet_oid (bullet_oid b) (bullets s),
            camera := shake 8 0.2 (camera s),
            score := score s + 100,
            enemies_killed := enemies_killed s + 1,
            enemies := remove_obj plane_oid (plane_oid e) (enemies s)\<rparr>)"
proof (induction es)
  case Nil
  show ?case by simp
next
  case (Cons e es)
  show ?case
  proof (cases "bullet_hits_enemy b e")
    case True
    have b: "(if obj_in bullet_oid (bullet_oid b) (bullets s)
              then s\<lparr>bullets := remove_obj bullet_oid (bullet_oid b) (bullets s)\<rparr> else s) =
             s\<lparr>bullets := remove_obj bullet_oid (bullet_oid b) (bullets s)\<rparr>"
      by (simp add: remove_obj_absent)
    show ?thesis using True
      by (simp add: Let_def b remove_obj_absent)
  next
    case False
    then show ?thesis using Cons.IH by simp
  qed
qed


lemma scan_enemies_frame:
  "player (scan_enemies b es s) = player s"
  "enemy_bullets (scan_enemies b es s) = enemy_bullets s"
  "state (scan_enemies b es s) = state s"
  "animation_timer (scan_enemies b es s) = animation_timer s"
  by (simp_all add: scan_enemies_find split: option.split)

lemma bullets_vs_enemies_frame:
  "player (bullets_vs_enemies bs s) = player s"
  "enemy_bullets (bullets_vs_enemies bs s) = enemy_bullets s"
  "state (bullets_vs_enemies bs s) = state s"
  "animation_timer (bullets_vs_enemies bs s) = animation_timer s"
  by (induction bs arbitrary: s) (simp_all add: scan_enemies_frame)

text \<open>One bullet: either nothing changes, or one hostile and the bullet go and the counters move.\<close>

lemma scan_enemies_count:
  assumes "obj_in bullet_oid (bullet_oid b) (bullets s)"
  shows "\<exists>n \<le> 1.
     length (enemies (scan_enemies b (enemies s) s)) + n = length (enemies s) \<and>
     length (bullets (scan_enemies b (enemies s) s)) + n = length (bullets s) \<and>
     score (scan_enemies b (enemies s) s) = score s + 100 * int n \<and>
     enemies_killed (scan_enemies b (enemies s) s) = enemies_killed s + int n \<and>
     mset (map bullet_oid (bullets (scan_enemies b (enemies s) s))) =
       mset (map bullet_oid (bullets s)) - replicate_mset n (bullet_oid b)"
proof (cases "find (bullet_hits_enemy b) (enemies s)")
  case None
  then show ?thesis by (intro exI [of _ 0]) (simp add: scan_enemies_find)
next
  case (Some e)
  then have "e \<in> set (enemies s)" by (simp add: find_hit_member)
  then have e: "obj_in plane_oid (plane_oid e) (enemies s)" by (simp add: obj_in_def)
  show ?thesis
    using Some remove_obj_length [OF e] remove_obj_length [OF assms] remove_obj_mset [OF assms]
    by (intro exI [of _ 1]) (simp add: scan_enemies_find)
qed

lemma bullets_vs_enemies_count:
  assumes "mset (map bullet_oid bs) \<subseteq># mset (map bullet_oid (bullets s))"
  shows "\<exists>n \<le> length bs.
     length (enemies (bullets_vs_enemies bs s)) + n = length (enemies s) \<and>
     length (bullets (bullets_vs_enemies bs s)) + n = length (bullets s) \<and>
     score (bullets_vs_enemies bs s) = score s + 100 * int n \<and>
     enemies_killed (bullets_vs_enemies bs s) = enemies_killed s + int n"
  using assms
proof (induction bs arbitrary: s)
  case Nil
  show ?case by simp
next
  case (Cons b bs)
  define t where "t = scan_enemies b (enemies s) s"
  from Cons.prems have mem: "obj_in bullet_oid (bullet_oid b) (bullets s)"
    by (auto simp: obj_in_def dest: mset_subset_eqD)
  from scan_enemies_count [OF mem] obtain n where n: "n \<le> 1"
    "length (enemies t) + n = length (enemies s)"
    "length (bullets t) + n = length (bullets s)"
    "score t = score s + 100 * int n"
    "enemies_killed t = enemies_killed s + int n"
    "mset (map bullet_oid (bullets t)) =
       mset (map bullet_oid (bullets s)) - replicate_mset n (bullet_oid b)"
    unfolding t_def by blast
  have "mset (map bullet_oid bs) \<subseteq># mset (map bullet_oid (bullets s)) - {#bullet_oid b#}"
    using Cons.prems by (simp add: insert_subset_eq_iff subset_mset.less_imp_le)
  also have "\<dots> \<subseteq># mset (map bullet_oid (bullets t))"
    using n(1) unfolding n(6) by (cases n) (simp_all add: diff_subset_eq_self)
  finally have inv: "mset (map bullet_oid bs) \<subseteq># mset (map bullet_oid (bullets t))" .
  from Cons.IH [OF inv] obtain m where m: "m \<le> length bs"
    "length (enemies (bullets_vs_enemies bs t)) + m = length (enemies t)"
    "length (bullets (bullets_vs_enemies bs t)) + m = length (bullets t)"
    "score (bullets_vs_enemies bs t) = score t + 100 * int m"
    "enemies_killed (bullets_vs_enemies bs t) = enemies_killed t + int m"
    by blast
  have step: "bullets_vs_enemies (b # bs) s = bullets_vs_enemies bs t"
    by (simp add: t_def)
  show ?case
    unfolding step using n m by (intro exI [of _ "m + n"]) simp
qed

text \<open>
  Claim C2. For one friendly bullet, the scan of the hostiles stops at the first hostile
  of the list that is closer to the bullet than \<open>ENEMY_SIZE + BULLET_SIZE\<close>: if there is none
  the session is unchanged, otherwise exactly that hostile and the bullet are removed,
  the score grows by 100 and the kill counter by 1. Over one run of the resolver, the
  number \<open>n\<close> of hostiles removed is at most the number of friendly bullets, the same number
  of bullets is removed, the score grows by \<open>100 * n\<close> and the kill counter by \<open>n\<close>.
\<close>

theorem collision_scoring:
  "scan_enemies b (enemies t) t =
     (case find (bullet_hits_enemy b) (enemies t) of
        None \<Rightarrow> t
      | Some e \<Rightarrow>
          t\<lparr>bullets := remove_obj bullet_oid (bullet_oid b) (bullets t),
            camera := shake 8 0.2 (camera t),
            score := score t + 100,
            enemies_killed := enemies_killed t + 1,
            enemies := remove_obj plane_oid (plane_oid e) (enemies t)\<rparr>) \<and>
   (\<exists>n \<le> length (bullets s).
      length (enemies (check_collisions s)) + n = length (enemies s) \<and>
      length (bullets (check_collisions s)) + n = length (bullets s) \<and>
      score (check_collisions s) = score s + 100 * int n \<and>
      enemies_killed (check_collisions s) = enemies_killed s + int n)"
proof
  show "scan_enemies b (enemies t) t =
     (case find (bullet_hits_enemy b) (enemies t) of
        None \<Rightarrow> t
      | Some e \<Rightarrow>
          t\<lparr>bullets := remove_obj bullet_oid (bullet_oid b) (bullets t),
            camera := shake 8 0.2 (camera t),
            score := score t + 100,
            enemies_killed := enemies_killed t + 1,
            enemies := remove_obj plane_oid (plane_oid e) (enemies t)\<rparr>)"
    by (rule scan_enemies_find)
next
  define s1 where "s1 = bullets_vs_enemies (bullets s) s"
  have "mset (map bullet_oid (bullets s)) \<subseteq># mset (map bullet_oid (bullets s))" by simp
  from bullets_vs_enemies_count [OF this] obtain n where n: "n \<le> length (bullets s)"
    "length (enemies s1) + n = length (enemies s)"
    "length (bullets s1) + n = length (bullets s)"
    "score s1 = score s + 100 * int n"
    "enemies_killed s1 = enemies_killed s + int n"
    unfolding s1_def by blast
  show "\<exists>n \<le> length (bullets s).
      length (enemies (check_collisions s)) + n = length (enemies s) \<and>
      length (bullets (check_collisions s)) + n = length (bullets s) \<and>
      score (check_collisions s) = score s + 100 * int n \<and>
      enemies_killed (check_collisions s) = enemies_killed s + int n"
  proof (cases "player s")
    case None
    then show ?thesis by (intro exI [of _ 0]) (simp add: check_collisions_def)
  next
    case (Some pl)
    then have
      "enemies (check_collisions s) = enemies s1" "bullets (check_collisions s) = bullets s1"
      "score (check_collisions s) = score s1"
      "enemies_killed (check_collisions s) = enemies_killed s1"
      by (simp_all add: check_collisions_def Let_def s1_def)
    then show ?thesis using n by (intro exI [of _ n]) simp
  qed
qed

theorem collision_scoring_witness:
  "(let e1 = new_plane 1 100 100 False; e2 = new_plane 2 110 100 False;
        b = new_bullet 3 105 100 0 True;
        s = blank_session\<lparr>player := Some (new_plane 0 400 300 True),
                            enemies := [e1, e2], bullets := [b]\<rparr>
    in enemies (check_collisions s) = [e2] \<and> bullets (check_collisions s) = [] \<and>
       score (check_collisions s) = 100 \<and> enemies_killed (check_collisions s) = 1)"
proof -
  define e1 where "e1 = new_plane 1 100 100 False"
  define e2 where "e2 = new_plane 2 110 100 False"
  define b where "b = new_bullet 3 105 100 0 True"
  define s where "s = blank_session\<lparr>player := Some (new_plane 0 400 300 True),
     enemies := [e1, e2], bullets := [b]\<rparr>"
  have s: "enemies s = [e1, e2]" "bullets s = [b]" "score s = 0" "enemies_killed s = 0"
    "player s = Some (new_plane 0 400 300 True)" "enemy_bullets s = []"
    by (simp_all add: s_def blank_session_def)
  have first: "find (bullet_hits_enemy b) (enemies s) = Some e1"
    by (simp add: s e1_def b_def new_plane_def new_bullet_def bullet_hits_enemy_def
        distance_lt_iff ENEMY_SIZE_def BULLET_SIZE_def)
  have scan: "scan_enemies b (enemies s) s =
      s\<lparr>bullets := [], camera := shake 8 0.2 (camera s), score := 100, enemies_killed := 1,
        enemies := [e2]\<rparr>"
    unfolding collision_scoring [of b s s, THEN conjunct1] first
    by (simp add: s e1_def e2_def b_def new_plane_def new_bullet_def)
  have phase: "bullets_vs_enemies (bullets s) s = scan_enemies b (enemies s) s"
    unfolding s(2) by (simp only: bullets_vs_enemies.simps)
  have far: "\<not> enemy_rams_player (new_plane 0 400 300 True) e2"
    by (simp add: enemy_rams_player_def e2_def new_plane_def distance_lt_iff
        PLAYER_SIZE_def ENEMY_SIZE_def)
  have "check_collisions s =
      s\<lparr>bullets := [], camera := shake 8 0.2 (camera s), score := 100, enemies_killed := 1,
        enemies := [e2]\<rparr>"
    unfolding check_collisions_def Let_def phase scan using far by (simp add: s)
  then show ?thesis
    unfolding Let_def e1_def [symmetric] e2_def [symmetric] b_def [symmetric] s_def [symmetric]
    by simp
qed

text \<open>
  Claim C3. With a player present, the resolver first runs the bullet-against-hostile
  phase, whose removals and scores stay in the result whatever follows. Then, if some
  hostile bullet is closer to the player than \<open>PLAYER_SIZE + BULLET_SIZE\<close>, the state becomes
  \<open>GAME_OVER\<close> with the camera shake of that branch, and the hostile-craft check is not
  run; otherwise, if some hostile that survived the first phase is closer to the player
  than \<open>PLAYER_SIZE + ENEMY_SIZE\<close>, the state becomes \<open>GAME_OVER\<close> with the shake of that
  branch; otherwise the state is unchanged.
\<close>

theorem loss_after_scoring:
  "player s = Some pl \<longrightarrow>
   (let s1 = bullets_vs_enemies (bullets s) s;
        s' = check_collisions s;
        shot = (\<exists>b \<in> set (enemy_bullets s). enemy_bullet_hits_player pl b);
        rammed = (\<exists>e \<in> set (enemies s1). enemy_rams_player pl e)
    in state s' = (if shot \<or> rammed then GAME_OVER else state s) \<and>
       animation_timer s' = (if shot \<or> rammed then ANIMATION_DURATION else animation_timer s) \<and>
       camera s' = (if shot then shake 15 0.5 (camera s1)
                    else if rammed then shake 20 0.6 (camera s1)
                    else camera s1) \<and>
       score s' = score s1 \<and> enemies_killed s' = enemies_killed s1 \<and>
       enemies s' = enemies s1 \<and> bullets s' = bullets s1)"
  by (simp add: check_collisions_def Let_def bullets_vs_enemies_frame list_ex_iff)

theorem loss_after_scoring_witness:
  "state (check_collisions (blank_session\<lparr>player := Some (new_plane 0 400 300 True),
       enemies := [new_plane 1 100 100 False], bullets := [new_bullet 3 105 100 0 True],
       enemy_bullets := [new_bullet 4 410 300 0 False]\<rparr>)) = GAME_OVER \<and>
   score (check_collisions (blank_session\<lparr>player := Some (new_plane 0 400 300 True),
       enemies := [new_plane 1 100 100 False], bullets := [new_bullet 3 105 100 0 True],
       enemy_bullets := [new_bullet 4 410 300 0 False]\<rparr>)) = 100 \<and>
   shake_intensity (camera (check_collisions (blank_session\<lparr>player := Some (new_plane 0 400 300 True),
       enemies := [new_plane 1 100 100 False], bullets := [new_bullet 3 105 100 0 True],
       enemy_bullets := [new_bullet 4 410 300 0 False]\<rparr>))) = 15 \<and>
   state (check_collisions (blank_session\<lparr>player := Some (new_plane 0 400 300 True),
       enemies := [new_plane 1 420 300 False]\<rparr>)) = GAME_OVER \<and>
   shake_intensity (camera (check_collisions (blank_session\<lparr>player := Some (new_plane 0 400 300 True),
       enemies := [new_plane 1 420 300 False]\<rparr>))) = 20 \<and>
   state (check_collisions (blank_session\<lparr>player := Some (new_plane 0 400 300 True),
       enemies := [new_plane 1 420 300 False], bullets := [new_bullet 3 408 300 0 True]\<rparr>)) = PLAYING \<and>
   state (check_collisions (blank_session\<lparr>player := Some (new_plane 0 400 300 True),
       enemies := [new_plane 1 100 100 False]\<rparr>)) = PLAYING"
  using
    loss_after_scoring [where pl = "new_plane 0 400 300 True"
      and s = "blank_session\<lparr>player := Some (new_plane 0 400 300 True),
                 enemies := [new_plane 1 100 100 False], bullets := [new_bullet 3 105 100 0 True],
                 enemy_bullets := [new_bullet 4 410 300 0 False]\<rparr>"]
    loss_after_scoring [where pl = "new_plane 0 400 300 True"
      and s = "blank_session\<lparr>player := Some (new_plane 0 400 300 True),
                 enemies := [new_plane 1 420 300 False]\<rparr>"]
    loss_after_scoring [where pl = "new_plane 0 400 300 True"
      and s = "blank_session\<lparr>player := Some (new_plane 0 400 300 True),
                 enemies := [new_plane 1 420 300 False], bullets := [new_bullet 3 408 300 0 True]\<rparr>"]
    loss_after_scoring [where pl = "new_plane 0 400 300 True"
      and s = "blank_session\<lparr>player := Some (new_plane 0 400 300 True),
                 enemies := [new_plane 1 100 100 False]\<rparr>"]
  by (simp add: Let_def blank_session_def new_plane_def new_bullet_def bullet_hits_enemy_def
        enemy_bullet_hits_player_def enemy_rams_player_def distance_lt_iff
        ENEMY_SIZE_def BULLET_SIZE_def PLAYER_SIZE_def obj_in_def shake_def)

section \<open>Level time limit\<close>

text \<open>
  Claim C7. In a tick of the \<open>PLAYING\<close> state in which the game time, after this tick's
  increment, is at least the level's time limit past the level's start, the state becomes
  \<open>LEVEL_COMPLETE\<close> and the score grows by ten times the limit. Apart from the clocks, the
  camera and the animation timer nothing else changes: the player, the hostiles, the
  bullets and the spawn timer are as before.
\<close>

theorem level_time_limit:
  "(let limit = (if current_level s < length LEVELS
                 then level_time (LEVELS ! current_level s) else 60)
    in state s = PLAYING \<and> of_int limit \<le> game_time s + dt - level_start_time s \<longrightarrow>
       on_update dt dr s =
         s\<lparr>camera := (case player s of
                         Some pl \<Rightarrow> update_camera (Some pl) dt (shake_x dr) (shake_y dr) (camera s)
                       | None \<Rightarrow> camera s),
           game_time := game_time s + dt,
           time_survived := time_survived s + dt,
           score := score s + limit * 10,
           state := LEVEL_COMPLETE,
           animation_timer := ANIMATION_DURATION - dt\<rparr>)"
  by (cases "player s")
     (simp_all add: on_update_def update_game_def Let_def ANIMATION_DURATION_def)

theorem level_time_limit_witness:
  "on_update (1/2) zero_draws (blank_session\<lparr>game_time := 59/2, score := 300\<rparr>) =
     blank_session\<lparr>game_time := 30, time_survived := 1/2, score := 600,
        state := LEVEL_COMPLETE, animation_timer := 7/10 - 1/2\<rparr>"
  using level_time_limit [of "blank_session\<lparr>game_time := 59/2, score := 300\<rparr>" "1/2" zero_draws]
  by (simp add: blank_session_def LEVELS_def ANIMATION_DURATION_def)

section \<open>The session state machine\<close>

lemma session_setup_frame:
  "state (session_setup d s) = state s"
  "name_input_active (session_setup d s) = name_input_active s"
  "current_level (session_setup d s) = current_level s"
  by (simp_all add: session_setup_def Let_def)

lemma spawn_attempts_frame:
  "state (spawn_attempts n i pick heading s) = state s"
  "name_input_active (spawn_attempts n i pick heading s) = name_input_active s"
  by (induction n arbitrary: i) (simp_all add: Let_def)

lemma spawn_enemies_frame:
  "state (spawn_enemies dt target pick heading s) = state s"
  "name_input_active (spawn_enemies dt target pick heading s) = name_input_active s"
  by (simp_all add: spawn_enemies_def Let_def spawn_attempts_frame)

lemma scan_enemies_flag: "name_input_active (scan_enemies b es s) = name_input_active s"
  by (simp add: scan_enemies_find split: option.split)

lemma bullets_vs_enemies_flag: "name_input_active (bullets_vs_enemies bs s) = name_input_active s"
  by (induction bs arbitrary: s) (simp_all add: scan_enemies_flag)

lemma check_collisions_state:
  "state (check_collisions s) = state s \<or> state (check_collisions s) = GAME_OVER"
  "name_input_active (check_collisions s) = name_input_active s"
  by (cases "player s";
      simp add: check_collisions_def Let_def bullets_vs_enemies_frame bullets_vs_enemies_flag)+

lemma update_player_frame:
  "state (update_player dt s) = state s"
  "name_input_active (update_player dt s) = name_input_active s"
  by (cases "player s"; simp add: update_player_def Let_def split: prod.split option.split)+

lemma update_game_state:
  "state (update_game dt dr s) \<in> {state s, LEVEL_COMPLETE, GAME_OVER}"
  "name_input_active (update_game dt dr s) = name_input_active s"
proof -
  define s1 where "s1 = s\<lparr>game_time := game_time s + dt, time_survived := time_survived s + dt\<rparr>"
  define s2 where "s2 = update_player dt s1"
  define s3 where "s3 = (case update_enemies (walls s2) (player s2) dt dr 0 (next_oid s2) (enemies s2) of
     (es, bs, k) \<Rightarrow> s2\<lparr>enemies := es, enemy_bullets := enemy_bullets s2 @ bs, next_oid := k\<rparr>)"
  define s5 where "s5 = s3\<lparr>bullets := update_bullets (walls s3) dt (bullets s3),
     enemy_bullets := update_bullets (walls s3) dt (enemy_bullets s3)\<rparr>"
  define s6 where "s6 = spawn_enemies dt
     (if current_level s1 < length LEVELS then level_enemies (LEVELS ! current_level s1) else MAX_ENEMIES)
     (spawn_pick dr) (spawn_heading dr) s5"
  have st: "state s6 = state s" "name_input_active s6 = name_input_active s"
    by (simp_all add: s6_def s5_def s3_def s2_def s1_def spawn_enemies_frame update_player_frame
        split: prod.split)
  have eq: "update_game dt dr s =
     (if of_int (if current_level s1 < length LEVELS then level_time (LEVELS ! current_level s1) else 60)
           \<le> game_time s1 - level_start_time s1
      then s1\<lparr>score := score s1 +
                 (if current_level s1 < length LEVELS then level_time (LEVELS ! current_level s1) else 60) * 10,
              state := LEVEL_COMPLETE, animation_timer := ANIMATION_DURATION\<rparr>
      else check_collisions s6)"
    unfolding update_game_def Let_def s6_def s5_def s3_def s2_def s1_def by simp
  show "state (update_game dt dr s) \<in> {state s, LEVEL_COMPLETE, GAME_OVER}"
    unfolding eq using check_collisions_state(1) [of s6] st(1) by auto
  show "name_input_active (update_game dt dr s) = name_input_active s"
    unfolding eq using check_collisions_state(2) [of s6] st(2) by (simp add: s1_def)
qed

lemma on_update_state:
  "state (on_update dt dr s) \<in> {state s, LEVEL_COMPLETE, GAME_OVER}"
  "name_input_active (on_update dt dr s) = name_input_active s"
proof -
  define s1 where "s1 = (case player s of
      Some pl \<Rightarrow> s\<lparr>camera := update_camera (Some pl) dt (shake_x dr) (shake_y dr) (camera s)\<rparr>
    | None \<Rightarrow> s)"
  have s1: "state s1 = state s" "name_input_active s1 = name_input_active s"
    by (simp_all add: s1_def split: option.split)
  show "state (on_update dt dr s) \<in> {state s, LEVEL_COMPLETE, GAME_OVER}"
    using update_game_state(1) [of dt dr s1] s1(1)
    by (auto simp: on_update_def Let_def s1_def [symmetric])
  show "name_input_active (on_update dt dr s) = name_input_active s"
    using update_game_state(2) [of dt dr s1] s1(2)
    by (auto simp: on_update_def Let_def s1_def [symmetric])
qed

lemma on_key_press_state:
  "state (on_key_press key modifiers now s) \<in> {state s, PLAYING}"
  "name_input_active (on_key_press key modifiers now s) \<longrightarrow> name_input_active s"
  by (simp_all add: on_key_press_def key_char_def)

lemma on_key_release_state:
  "state (on_key_release key modifiers s) = state s"
  "name_input_active (on_key_release key modifiers s) = name_input_active s"
  by (simp_all add: on_key_release_def)

lemma on_mouse_press_state:
  "state (on_mouse_press x y button modifiers d1 d2 s) \<in>
     {state s, RULES, HIGH_SCORES, READY, MENU}"
  "name_input_active (on_mouse_press x y button modifiers d1 d2 s) = name_input_active s"
  by (simp_all add: on_mouse_press_def Let_def session_setup_frame restart_run_def)

lemma on_mouse_release_state:
  "state (on_mouse_release x y button modifiers s) = state s"
  "name_input_active (on_mouse_release x y button modifiers s) = name_input_active s"
  by (simp_all add: on_mouse_release_def)

lemma on_mouse_motion_state:
  "state (on_mouse_motion x y dx dy s) = state s"
  "name_input_active (on_mouse_motion x y dx dy s) = name_input_active s"
  by (simp_all add: on_mouse_motion_def Let_def split: option.split)

lemma handle_never_assigns_win: "state (handle s ev) = WIN \<Longrightarrow> state s = WIN"
proof (cases ev)
  case (Update dt dr)
  then show "state (handle s ev) = WIN \<Longrightarrow> state s = WIN"
    using on_update_state(1) [of dt dr s] by auto
next
  case (KeyPress key modifiers now)
  then show "state (handle s ev) = WIN \<Longrightarrow> state s = WIN"
    using on_key_press_state(1) [of key modifiers now s] by auto
next
  case (KeyRelease key modifiers)
  then show "state (handle s ev) = WIN \<Longrightarrow> state s = WIN"
    by (simp add: on_key_release_state)
next
  case (MousePress x y button modifiers d1 d2)
  then show "state (handle s ev) = WIN \<Longrightarrow> state s = WIN"
    using on_mouse_press_state(1) [of x y button modifiers d1 d2 s] by auto
next
  case (MouseRelease x y button modifiers)
  then show "state (handle s ev) = WIN \<Longrightarrow> state s = WIN"
    by (simp add: on_mouse_release_state)
next
  case (MouseMotion x y dx dy)
  then show "state (handle s ev) = WIN \<Longrightarrow> state s = WIN"
    by (simp add: on_mouse_motion_state)
qed

lemma handle_keeps_name_entry_off: "\<not> name_input_active s \<Longrightarrow> \<not> name_input_active (handle s ev)"
  using on_key_press_state(2)
  by (cases ev)
     (auto simp: on_update_state on_key_release_state
        on_mouse_press_state on_mouse_release_state on_mouse_motion_state)

lemma main_state: "state (main file d1 d2) = MENU" "\<not> name_input_active (main file d1 d2)"
  by (simp_all add: main_def new_session_def session_setup_frame)

lemma reachable_not_win: "reachable s \<Longrightarrow> state s \<noteq> WIN \<and> \<not> name_input_active s"
proof (induction rule: reachable.induct)
  case (start f d1 d2)
  show ?case by (simp add: main_state)
next
  case (step s ev)
  then show ?case
    using handle_never_assigns_win [of s ev] handle_keeps_name_entry_off [of s ev] by blast
qed

lemma level_complete_exits:
  assumes "state s = LEVEL_COMPLETE"
  shows "state (handle s ev) \<in> {LEVEL_COMPLETE, MENU, READY}"
    and "state (handle s ev) = READY \<Longrightarrow> current_level s + 1 < length LEVELS"
proof -
  have "state (handle s ev) \<in> {LEVEL_COMPLETE, MENU, READY} \<and>
        (state (handle s ev) = READY \<longrightarrow> current_level s + 1 < length LEVELS)"
  proof (cases ev)
    case (Update dt dr)
    then show ?thesis using assms by (simp add: on_update_def Let_def split: option.split)
  next
    case (KeyPress key modifiers now)
    then show ?thesis using assms by (simp add: on_key_press_def)
  next
    case (KeyRelease key modifiers)
    then show ?thesis using assms by (simp add: on_key_release_def)
  next
    case (MousePress x y button modifiers d1 d2)
    then show ?thesis using assms
      by (simp add: on_mouse_press_def Let_def session_setup_frame)
  next
    case (MouseRelease x y button modifiers)
    then show ?thesis using assms by (simp add: on_mouse_release_def)
  next
    case (MouseMotion x y dx dy)
    then show ?thesis using assms by (simp add: on_mouse_motion_def split: option.split)
  qed
  then show "state (handle s ev) \<in> {LEVEL_COMPLETE, MENU, READY}"
    and "state (handle s ev) = READY \<Longrightarrow> current_level s + 1 < length LEVELS"
    by simp_all
qed

text \<open>
  Claim C10. No session reachable from the start of the program is in the state \<open>WIN\<close>, and
  name entry is never active. No callback moves a session into \<open>WIN\<close> from another state.
  From \<open>LEVEL_COMPLETE\<close> a callback leads to \<open>LEVEL_COMPLETE\<close>, \<open>MENU\<close> or \<open>READY\<close> only, and to
  \<open>READY\<close> only when a further level exists.
\<close>

theorem win_unreachable:
  "(reachable s \<longrightarrow> state s \<noteq> WIN \<and> \<not> name_input_active s) \<and>
   (state (handle t ev) = WIN \<longrightarrow> state t = WIN) \<and>
   (state t = LEVEL_COMPLETE \<longrightarrow>
      state (handle t ev) \<in> {LEVEL_COMPLETE, MENU, READY} \<and>
      (state (handle t ev) = READY \<longrightarrow> current_level t + 1 < length LEVELS))"
  using reachable_not_win [of s] handle_never_assigns_win [of t ev] level_complete_exits [of t ev]
  by blast

theorem win_unreachable_witness:
  "state (main None (\<lambda>k. (1, 1, 96, 96)) (\<lambda>k. (1, 1, 96, 96))) \<noteq> WIN \<and>
   state (handle (blank_session\<lparr>state := WIN\<rparr>) (KeyRelease 0 0)) = WIN \<and>
   state (handle (blank_session\<lparr>state := LEVEL_COMPLETE, current_level := 3\<rparr>)
            (MousePress 400 180 1 0 (\<lambda>k. (1, 1, 96, 96)) (\<lambda>k. (1, 1, 96, 96)))) = MENU \<and>
   state (handle (blank_session\<lparr>state := LEVEL_COMPLETE, current_level := 0\<rparr>)
            (MousePress 400 250 1 0 (\<lambda>k. (1, 1, 96, 96)) (\<lambda>k. (1, 1, 96, 96)))) = READY"
proof -
  have "reachable (main None (\<lambda>k. (1, 1, 96, 96)) (\<lambda>k. (1, 1, 96, 96)))"
    by (rule reachable.start)
  then have "state (main None (\<lambda>k. (1, 1, 96, 96)) (\<lambda>k. (1, 1, 96, 96))) \<noteq> WIN"
    using win_unreachable [of "main None (\<lambda>k. (1, 1, 96, 96)) (\<lambda>k. (1, 1, 96, 96))"]
    by blast
  moreover have "state (handle (blank_session\<lparr>state := WIN\<rparr>) (KeyRelease 0 0)) = WIN"
    by (simp add: on_key_release_def blank_session_def)
  moreover have
    "state (handle (blank_session\<lparr>state := LEVEL_COMPLETE, current_level := 3\<rparr>)
            (MousePress 400 180 1 0 (\<lambda>k. (1, 1, 96, 96)) (\<lambda>k. (1, 1, 96, 96)))) = MENU"
    by (simp add: on_mouse_press_def Let_def session_setup_frame blank_session_def LEVELS_def
        is_clicked_def button_menu_def button_next_level_def mk_button_def
        SCREEN_WIDTH_def SCREEN_HEIGHT_def)
  moreover have
    "state (handle (blank_session\<lparr>state := LEVEL_COMPLETE, current_level := 0\<rparr>)
            (MousePress 400 250 1 0 (\<lambda>k. (1, 1, 96, 96)) (\<lambda>k. (1, 1, 96, 96)))) = READY"
    by (simp add: on_mouse_press_def Let_def session_setup_frame blank_session_def LEVELS_def
        is_clicked_def button_menu_def button_next_level_def mk_button_def
        SCREEN_WIDTH_def SCREEN_HEIGHT_def)
  ultimately show ?thesis by blast
qed

section \<open>Properties of every reachable session\<close>

text \<open>The hostile count stays within the level's target.\<close>

lemma spawn_attempts_length:
  "length (enemies (spawn_attempts n i pick heading s)) \<le> Suc (length (enemies s))"
  "current_level (spawn_attempts n i pick heading s) = current_level s"
  by (induction n arbitrary: i) (simp_all add: Let_def)

lemma spawn_enemies_length:
  "length (enemies s) \<le> target \<Longrightarrow>
   length (enemies (spawn_enemies dt target pick heading s)) \<le> target"
  "current_level (spawn_enemies dt target pick heading s) = current_level s"
proof -
  define s1 where "s1 = s\<lparr>enemy_spawn_timer := enemy_spawn_timer s - dt\<rparr>"
  have e1: "enemies s1 = enemies s" by (simp add: s1_def)
  have tries: "length (enemies (spawn_attempts 100 0 pick heading s1)) \<le> Suc (length (enemies s))"
    using spawn_attempts_length(1) [of 100 0 pick heading s1] by (simp add: e1)
  show "length (enemies (spawn_enemies dt target pick heading s)) \<le> target"
    if le: "length (enemies s) \<le> target"
  proof (cases "target \<le> length (enemies s)")
    case True
    then show ?thesis using le by (simp add: spawn_enemies_def)
  next
    case False
    then have "spawn_enemies dt target pick heading s = spawn_attempts 100 0 pick heading s1 \<or>
        spawn_enemies dt target pick heading s = s1"
      by (simp add: spawn_enemies_def Let_def s1_def)
    then show ?thesis using False tries e1 by auto
  qed
  show "current_level (spawn_enemies dt target pick heading s) = current_level s"
    by (simp add: spawn_enemies_def Let_def spawn_attempts_length)
qed

lemma update_enemies_length:
  "length (fst (update_enemies ws po dt dr i k es)) = length es"
proof (induction es arbitrary: i k)
  case Nil
  show ?case by simp
next
  case (Cons e es)
  define e2 where "e2 = (case po of
      Some pl \<Rightarrow> (update ws po dt (enemy_heading dr i) (enemy_delay dr i) e)
                   \<lparr>last_player_pos := Some (plane_x pl, plane_y pl)\<rparr>
    | None \<Rightarrow> update ws po dt (enemy_heading dr i) (enemy_delay dr i) e)"
  obtain bo e3 where sh: "shoot k e2 = (bo, e3)" by (cases "shoot k e2")
  have step: "update_enemies ws po dt dr i k (e # es) =
      (case shoot k e2 of
         (Some b, e3) \<Rightarrow>
           (case update_enemies ws po dt dr (Suc i) (Suc k) es of
              (es', bs', k') \<Rightarrow> (e3 # es', (if \<not> is_player e3 then b # bs' else bs'), k'))
       | (None, e3) \<Rightarrow>
           (case update_enemies ws po dt dr (Suc i) k es of
              (es', bs', k') \<Rightarrow> (e3 # es', bs', k')))"
    by (simp add: Let_def e2_def)
  show ?case
  proof (cases bo)
    case None
    obtain es' bs' k' where r: "update_enemies ws po dt dr (Suc i) k es = (es', bs', k')"
      by (cases "update_enemies ws po dt dr (Suc i) k es")
    from Cons.IH [of "Suc i" k] r have "length es' = length es" by simp
    then show ?thesis unfolding step sh using None r by simp
  next
    case (Some b)
    obtain es' bs' k' where r: "update_enemies ws po dt dr (Suc i) (Suc k) es = (es', bs', k')"
      by (cases "update_enemies ws po dt dr (Suc i) (Suc k) es")
    from Cons.IH [of "Suc i" "Suc k"] r have "length es' = length es" by simp
    then show ?thesis unfolding step sh using Some r by simp
  qed
qed

lemma scan_enemies_level: "current_level (scan_enemies b es s) = current_level s"
  by (simp add: scan_enemies_find split: option.split)

lemma bullets_vs_enemies_level: "current_level (bullets_vs_enemies bs s) = current_level s"
  by (induction bs arbitrary: s) (simp_all add: scan_enemies_level)

lemma check_collisions_length:
  "length (enemies (check_collisions s)) \<le> length (enemies s)"
  "current_level (check_collisions s) = current_level s"
proof -
  have "mset (map bullet_oid (bullets s)) \<subseteq># mset (map bullet_oid (bullets s))" by simp
  from bullets_vs_enemies_count [OF this]
  have "length (enemies (bullets_vs_enemies (bullets s) s)) \<le> length (enemies s)" by auto
  then show "length (enemies (check_collisions s)) \<le> length (enemies s)"
    by (cases "player s") (simp_all add: check_collisions_def Let_def)
  show "current_level (check_collisions s) = current_level s"
    by (cases "player s") (simp_all add: check_collisions_def Let_def bullets_vs_enemies_level)
qed

lemma update_player_enemies:
  "enemies (update_player dt s) = enemies s"
  "current_level (update_player dt s) = current_level s"
  by (cases "player s"; simp add: update_player_def Let_def split: prod.split option.split)+

lemma update_game_cap: "enemy_cap s \<Longrightarrow> enemy_cap (update_game dt dr s)"
proof -
  assume cap: "enemy_cap s"
  define s1 where "s1 = s\<lparr>game_time := game_time s + dt, time_survived := time_survived s + dt\<rparr>"
  define s2 where "s2 = update_player dt s1"
  define s3 where "s3 = (case update_enemies (walls s2) (player s2) dt dr 0 (next_oid s2) (enemies s2) of
     (es, bs, k) \<Rightarrow> s2\<lparr>enemies := es, enemy_bullets := enemy_bullets s2 @ bs, next_oid := k\<rparr>)"
  define s5 where "s5 = s3\<lparr>bullets := update_bullets (walls s3) dt (bullets s3),
     enemy_bullets := update_bullets (walls s3) dt (enemy_bullets s3)\<rparr>"
  define s6 where "s6 = spawn_enemies dt (target_enemies_of (current_level s1))
     (spawn_pick dr) (spawn_heading dr) s5"
  obtain es bs k where ue:
    "update_enemies (walls s2) (player s2) dt dr 0 (next_oid s2) (enemies s2) = (es, bs, k)"
    by (cases "update_enemies (walls s2) (player s2) dt dr 0 (next_oid s2) (enemies s2)")
  have "length es = length (enemies s2)"
    using update_enemies_length [of "walls s2" "player s2" dt dr 0 "next_oid s2" "enemies s2"]
    by (simp add: ue)
  then have l3: "length (enemies s3) = length (enemies s2)" "current_level s3 = current_level s2"
    by (simp_all add: s3_def ue)
  have l5: "length (enemies s5) = length (enemies s)" "current_level s5 = current_level s"
    "current_level s1 = current_level s"
    by (simp_all add: s5_def l3 s2_def update_player_enemies s1_def)
  have "length (enemies s5) \<le> target_enemies_of (current_level s1)"
    using cap by (simp add: l5 enemy_cap_def)
  then have l6: "length (enemies s6) \<le> target_enemies_of (current_level s)"
    "current_level s6 = current_level s"
    unfolding s6_def using l5 by (simp_all add: spawn_enemies_length)
  have eq: "update_game dt dr s =
     (if of_int (if current_level s1 < length LEVELS then level_time (LEVELS ! current_level s1) else 60)
           \<le> game_time s1 - level_start_time s1
      then s1\<lparr>score := score s1 +
                 (if current_level s1 < length LEVELS then level_time (LEVELS ! current_level s1) else 60) * 10,
              state := LEVEL_COMPLETE, animation_timer := ANIMATION_DURATION\<rparr>
      else check_collisions s6)"
    unfolding update_game_def Let_def s6_def s5_def s3_def s2_def s1_def target_enemies_of_def
    by simp
  show "enemy_cap (update_game dt dr s)"
    unfolding eq using cap l6 check_collisions_length [of s6]
    by (auto simp: enemy_cap_def s1_def)
qed

lemma session_setup_cap: "enemy_cap (session_setup d s)"
  by (simp add: enemy_cap_def session_setup_def Let_def)

lemma handle_cap: "enemy_cap s \<Longrightarrow> enemy_cap (handle s ev)"
proof (cases ev)
  case (Update dt dr)
  assume cap: "enemy_cap s"
  define s1 where "s1 = (case player s of
      Some pl \<Rightarrow> s\<lparr>camera := update_camera (Some pl) dt (shake_x dr) (shake_y dr) (camera s)\<rparr>
    | None \<Rightarrow> s)"
  have "enemy_cap s1" using cap by (simp add: s1_def enemy_cap_def split: option.split)
  then have "enemy_cap (update_game dt dr s1)" by (rule update_game_cap)
  then show ?thesis using Update \<open>enemy_cap s1\<close>
    by (simp add: on_update_def Let_def s1_def [symmetric] enemy_cap_def)
next
  case (KeyPress key modifiers now)
  assume "enemy_cap s"
  then show ?thesis using KeyPress by (simp add: on_key_press_def key_char_def enemy_cap_def)
next
  case (KeyRelease key modifiers)
  assume "enemy_cap s"
  then show ?thesis using KeyRelease by (simp add: on_key_release_def enemy_cap_def)
next
  case (MousePress x y button modifiers d1 d2)
  assume "enemy_cap s"
  then show ?thesis using MousePress session_setup_cap
    by (simp add: on_mouse_press_def Let_def enemy_cap_def)
next
  case (MouseRelease x y button modifiers)
  assume "enemy_cap s"
  then show ?thesis using MouseRelease by (simp add: on_mouse_release_def enemy_cap_def)
next
  case (MouseMotion x y dx dy)
  assume "enemy_cap s"
  then show ?thesis using MouseMotion
    by (simp add: on_mouse_motion_def Let_def enemy_cap_def split: option.split)
qed

lemma reachable_enemy_cap: "reachable s \<Longrightarrow> enemy_cap s"
proof (induction rule: reachable.induct)
  case (start f d1 d2)
  show ?case by (simp add: main_def session_setup_cap)
next
  case (step s ev)
  then show ?case by (simp add: handle_cap)
qed

text \<open>Screen containment: the player stays within the screen.\<close>

lemma py_range_bounds:
  assumes "0 < st" "x \<in> set (py_range a b st)"
  shows "(\<exists>k::nat. x = a + st * int k) \<and> x < b"
proof -
  define z where "z = b - a + st - 1"
  from assms(2) have "x \<in> (\<lambda>k. a + st * int k) ` {0 ..< nat (z div st)}"
    by (simp add: py_range_def z_def)
  then obtain k where k: "x = a + st * int k" "k \<in> {0 ..< nat (z div st)}" by blast
  then have "int k + 1 \<le> z div st" by simp
  then have "st * (int k + 1) \<le> st * (z div st)"
    using assms(1) by (simp add: mult_left_mono)
  moreover have "st * (z div st) + z mod st = z" by simp
  moreover have "0 \<le> z mod st" using assms(1) by simp
  ultimately have "st * (int k + 1) \<le> z" by linarith
  then have "st * int k \<le> b - a - 1" by (simp add: algebra_simps z_def)
  then have "x < b" using k(1) by linarith
  then show ?thesis using k(1) by blast
qed

lemma free_areas_on_grid:
  assumes "pos \<in> set (calculate_free_areas ws)"
  shows "25 \<le> fst pos \<and> fst pos \<le> 775 \<and> 25 \<le> snd pos \<and> snd pos \<le> 575"
proof -
  from assms obtain x y where xy: "pos = (x, y)"
    "x \<in> set (py_range 25 SCREEN_WIDTH 50)" "y \<in> set (py_range 25 SCREEN_HEIGHT 50)"
    by (auto simp: calculate_free_areas_def Let_def split: if_splits)
  from py_range_bounds [OF _ xy(2)] obtain i :: nat where i: "x = 25 + 50 * int i" "x < 800"
    by (auto simp: SCREEN_WIDTH_def)
  from py_range_bounds [OF _ xy(3)] obtain j :: nat where j: "y = 25 + 50 * int j" "y < 600"
    by (auto simp: SCREEN_HEIGHT_def)
  from i have "25 \<le> x \<and> x \<le> 775" by presburger
  moreover from j have "25 \<le> y \<and> y \<le> 575" by presburger
  ultimately show ?thesis using xy(1) by simp
qed

lemma nearest_free_member:
  "nearest_free ws px py free best = Some (pos, d) \<Longrightarrow>
   pos \<in> set free \<or> best = Some (pos, d)"
proof (induction free arbitrary: best)
  case Nil
  then show ?case by simp
next
  case (Cons c free)
  then show ?case by (fastforce simp: Let_def split: if_splits)
qed

lemma spawn_position_cases:
  "find_valid_spawn_position ws free px py = (px, py) \<or>
   find_valid_spawn_position ws free px py \<in> set free"
proof (cases "is_position_free ws px py")
  case True
  then show ?thesis by (simp add: find_valid_spawn_position_def)
next
  case False
  show ?thesis
  proof (cases "nearest_free ws px py free None")
    case None
    then show ?thesis using False
      by (cases free) (simp_all add: find_valid_spawn_position_def)
  next
    case (Some r)
    obtain pos d where r: "r = (pos, d)" by (cases r)
    from nearest_free_member [of ws px py free None pos d] Some r
    have "pos \<in> set free" by simp
    then show ?thesis using False Some r by (simp add: find_valid_spawn_position_def)
  qed
qed

lemma new_player_in_bounds:
  "20 \<le> x \<Longrightarrow> x \<le> 780 \<Longrightarrow> 20 \<le> y \<Longrightarrow> y \<le> 580 \<Longrightarrow>
   in_bounds (new_plane k (of_int x) (of_int y) True)"
  by (simp add: in_bounds_def new_plane_def PLAYER_SIZE_def SCREEN_WIDTH_def SCREEN_HEIGHT_def)

lemma session_setup_player: "player_in_bounds (session_setup d s)"
proof -
  define ws where "ws = create_level_maze (current_level s) d"
  define sp where "sp = find_valid_spawn_position ws (calculate_free_areas ws)
     (SCREEN_WIDTH div 2) (SCREEN_HEIGHT div 2)"
  have "sp = (400, 300) \<or> sp \<in> set (calculate_free_areas ws)"
    using spawn_position_cases [of ws "calculate_free_areas ws" "SCREEN_WIDTH div 2" "SCREEN_HEIGHT div 2"]
    by (simp add: sp_def SCREEN_WIDTH_def SCREEN_HEIGHT_def)
  then have "20 \<le> fst sp \<and> fst sp \<le> 780 \<and> 20 \<le> snd sp \<and> snd sp \<le> 580"
    using free_areas_on_grid [of sp ws] by auto
  then have "in_bounds (new_plane (next_oid s) (of_int (fst sp)) (of_int (snd sp)) True)"
    by (simp add: new_player_in_bounds)
  then show ?thesis
    by (simp add: player_in_bounds_def session_setup_def Let_def ws_def sp_def)
qed

lemma visibility_position:
  "plane_x (check_player_visibility po ws e) = plane_x e"
  "plane_y (check_player_visibility po ws e) = plane_y e"
  "plane_size (check_player_visibility po ws e) = plane_size e"
  by (cases po; simp add: check_player_visibility_def Let_def)+

lemma update_enemy_position:
  "plane_x (update_enemy ws po dt c u e) = plane_x e"
  "plane_y (update_enemy ws po dt c u e) = plane_y e"
  "plane_size (update_enemy ws po dt c u e) = plane_size e"
  by (cases po;
      simp add: update_enemy_def Let_def visibility_position homing_step_def patrol_step_def)+

lemma update_player_timers_position:
  "plane_x (update_player_timers dt p) = plane_x p"
  "plane_y (update_player_timers dt p) = plane_y p"
  "plane_size (update_player_timers dt p) = plane_size p"
  by (simp_all add: update_player_timers_def Let_def split: prod.split)

lemma update_keeps_in_bounds: "in_bounds p \<Longrightarrow> in_bounds (update ws po dt c u p)"
proof -
  assume p: "in_bounds p"
  define p3 where "p3 = (let p1 = p\<lparr>plane_animation_timer := plane_animation_timer p + dt\<rparr>;
          p2 = (if is_player p1 then update_player_timers dt p1 else p1)
      in (if \<not> is_player p2 then update_enemy ws po dt c u p2 else p2))"
  have "plane_x p3 = plane_x p" "plane_y p3 = plane_y p" "plane_size p3 = plane_size p"
    by (simp_all add: p3_def Let_def update_enemy_position update_player_timers_position)
  with p have "in_bounds p3" by (simp add: in_bounds_def)
  then have "in_bounds (move ws p3)" by (rule move_keeps_in_bounds)
  then show ?thesis by (simp add: update_def p3_def Let_def)
qed

lemma shoot_keeps_in_bounds: "in_bounds p \<Longrightarrow> in_bounds (snd (shoot k p))"
  by (simp add: shoot_def in_bounds_def Let_def split: option.split)

lemma update_player_in_bounds: "player_in_bounds s \<Longrightarrow> player_in_bounds (update_player dt s)"
proof (cases "player s")
  case None
  assume "player_in_bounds s"
  then show ?thesis using None by (simp add: update_player_def)
next
  case (Some pl)
  assume "player_in_bounds s"
  then have pl: "in_bounds pl" using Some by (simp add: player_in_bounds_def)
  define pl1 where "pl1 = update (walls s) None dt 0 0 pl"
  have 1: "in_bounds pl1" unfolding pl1_def using pl by (rule update_keeps_in_bounds)
  obtain bo pl2 where sh: "shoot (next_oid s) pl1 = (bo, pl2)" by (cases "shoot (next_oid s) pl1")
  have 2: "in_bounds pl2" using shoot_keeps_in_bounds [OF 1, of "next_oid s"] sh by simp
  show ?thesis using Some 1 2 sh
    by (cases bo) (simp_all add: update_player_def Let_def pl1_def [symmetric] player_in_bounds_def)
qed


lemma spawn_attempts_player: "player (spawn_attempts n i pick heading s) = player s"
  by (induction n arbitrary: i) (simp_all add: Let_def)

lemma spawn_enemies_player: "player (spawn_enemies dt target pick heading s) = player s"
  by (simp add: spawn_enemies_def Let_def spawn_attempts_player)

lemma check_collisions_player: "player (check_collisions s) = player s"
  by (cases "player s") (simp_all add: check_collisions_def Let_def bullets_vs_enemies_frame)

lemma update_game_player_in_bounds:
  "player_in_bounds s \<Longrightarrow> player_in_bounds (update_game dt dr s)"
proof -
  assume inv: "player_in_bounds s"
  define s1 where "s1 = s\<lparr>game_time := game_time s + dt, time_survived := time_survived s + dt\<rparr>"
  define s2 where "s2 = update_player dt s1"
  define s3 where "s3 = (case update_enemies (walls s2) (player s2) dt dr 0 (next_oid s2) (enemies s2) of
     (es, bs, k) \<Rightarrow> s2\<lparr>enemies := es, enemy_bullets := enemy_bullets s2 @ bs, next_oid := k\<rparr>)"
  define s5 where "s5 = s3\<lparr>bullets := update_bullets (walls s3) dt (bullets s3),
     enemy_bullets := update_bullets (walls s3) dt (enemy_bullets s3)\<rparr>"
  define s6 where "s6 = spawn_enemies dt
     (if current_level s1 < length LEVELS then level_enemies (LEVELS ! current_level s1) else MAX_ENEMIES)
     (spawn_pick dr) (spawn_heading dr) s5"
  have "player_in_bounds s1" using inv by (simp add: s1_def player_in_bounds_def)
  then have "player_in_bounds s2" unfolding s2_def by (rule update_player_in_bounds)
  moreover have "player s6 = player s2"
    by (simp add: s6_def s5_def s3_def spawn_enemies_player split: prod.split)
  ultimately have "player_in_bounds (check_collisions s6)"
    by (simp add: player_in_bounds_def check_collisions_player)
  moreover have "update_game dt dr s =
     (if of_int (if current_level s1 < length LEVELS then level_time (LEVELS ! current_level s1) else 60)
           \<le> game_time s1 - level_start_time s1
      then s1\<lparr>score := score s1 +
                 (if current_level s1 < length LEVELS then level_time (LEVELS ! current_level s1) else 60) * 10,
              state := LEVEL_COMPLETE, animation_timer := ANIMATION_DURATION\<rparr>
      else check_collisions s6)"
    unfolding update_game_def Let_def s6_def s5_def s3_def s2_def s1_def by simp
  ultimately show ?thesis using \<open>player_in_bounds s1\<close>
    by (simp add: player_in_bounds_def)
qed

lemma set_movement_in_bounds: "in_bounds (set_movement a b c d p) = in_bounds p"
  by (simp add: set_movement_def in_bounds_def)

lemma handle_player_in_bounds: "player_in_bounds s \<Longrightarrow> player_in_bounds (handle s ev)"
proof (cases ev)
  case (Update dt dr)
  assume inv: "player_in_bounds s"
  define s1 where "s1 = (case player s of
      Some pl \<Rightarrow> s\<lparr>camera := update_camera (Some pl) dt (shake_x dr) (shake_y dr) (camera s)\<rparr>
    | None \<Rightarrow> s)"
  have 1: "player_in_bounds s1" using inv
    by (cases "player s") (simp_all add: s1_def player_in_bounds_def)
  then have "player_in_bounds (update_game dt dr s1)" by (rule update_game_player_in_bounds)
  then show ?thesis using Update 1
    by (simp add: on_update_def Let_def s1_def [symmetric] player_in_bounds_def)
next
  case (KeyPress key modifiers now)
  assume "player_in_bounds s"
  then show ?thesis using KeyPress
    by (cases "player s")
       (simp_all add: on_key_press_def key_char_def player_in_bounds_def set_movement_in_bounds)
next
  case (KeyRelease key modifiers)
  assume "player_in_bounds s"
  then show ?thesis using KeyRelease
    by (cases "player s")
       (simp_all add: on_key_release_def player_in_bounds_def set_movement_in_bounds)
next
  case (MousePress x y button modifiers d1 d2)
  assume "player_in_bounds s"
  then show ?thesis using MousePress session_setup_player
    by (simp add: on_mouse_press_def Let_def player_in_bounds_def)
next
  case (MouseRelease x y button modifiers)
  assume "player_in_bounds s"
  then show ?thesis using MouseRelease by (simp add: on_mouse_release_def player_in_bounds_def)
next
  case (MouseMotion x y dx dy)
  assume "player_in_bounds s"
  then show ?thesis using MouseMotion
    by (cases "player s")
       (simp_all add: on_mouse_motion_def Let_def player_in_bounds_def in_bounds_def)
qed

lemma reachable_player_in_bounds: "reachable s \<Longrightarrow> player_in_bounds s"
proof (induction rule: reachable.induct)
  case (start f d1 d2)
  show ?case by (simp add: main_def session_setup_player)
next
  case (step s ev)
  then show ?case by (simp add: handle_player_in_bounds)
qed

section \<open>Wave spawner\<close>

lemma placement_ok_timer [simp]:
  "placement_ok (s\<lparr>enemy_spawn_timer := t\<rparr>) pos = placement_ok s pos"
  by (simp add: placement_ok_def)

lemma spawn_attempts_fail:
  "\<forall>j<n. \<not> placement_ok s (choice (free_spawn_areas s) (pick (i + j))) \<Longrightarrow>
   spawn_attempts n i pick heading s = s\<lparr>enemy_spawn_timer := ENEMY_SPAWN_DELAY / 2\<rparr>"
proof (induction n arbitrary: i)
  case 0
  show ?case by simp
next
  case (Suc n)
  from Suc.prems have first: "\<not> placement_ok s (choice (free_spawn_areas s) (pick i))"
    by (metis add.right_neutral zero_less_Suc)
  from Suc.prems have "\<forall>j<n. \<not> placement_ok s (choice (free_spawn_areas s) (pick (Suc i + j)))"
    by (metis Suc_less_eq add_Suc_shift)
  from Suc.IH [OF this] first show ?case by (simp add: Let_def)
qed

lemma spawn_attempts_success:
  "k < n \<Longrightarrow>
   \<forall>j<k. \<not> placement_ok s (choice (free_spawn_areas s) (pick (i + j))) \<Longrightarrow>
   placement_ok s (choice (free_spawn_areas s) (pick (i + k))) \<Longrightarrow>
   spawn_attempts n i pick heading s =
     s\<lparr>enemies := enemies s @
          [(new_plane (next_oid s)
              (of_int (fst (choice (free_spawn_areas s) (pick (i + k)))))
              (of_int (snd (choice (free_spawn_areas s) (pick (i + k))))) False)
             \<lparr>angle := cardinal heading, target_angle := cardinal heading\<rparr>],
        next_oid := next_oid s + 1,
        enemy_spawn_timer := ENEMY_SPAWN_DELAY\<rparr>"
proof (induction n arbitrary: i k)
  case 0
  then show ?case by simp
next
  case (Suc n)
  show ?case
  proof (cases k)
    case 0
    with Suc.prems show ?thesis by (simp add: Let_def)
  next
    case (Suc k')
    with Suc.prems have first: "\<not> placement_ok s (choice (free_spawn_areas s) (pick i))"
      by (metis add.right_neutral zero_less_Suc)
    from Suc Suc.prems have a: "k' < n" by simp
    from Suc Suc.prems have
      b: "\<forall>j<k'. \<not> placement_ok s (choice (free_spawn_areas s) (pick (Suc i + j)))"
      by (metis Suc_less_eq add_Suc_shift)
    from Suc Suc.prems have c: "placement_ok s (choice (free_spawn_areas s) (pick (Suc i + k')))"
      by simp
    from Suc.IH [OF a b c] first Suc show ?thesis by (simp add: Let_def)
  qed
qed

lemma first_success:
  "\<exists>i<n. P i \<Longrightarrow> \<exists>k<n. (\<forall>j<k. \<not> P j) \<and> P (k::nat)"
proof -
  assume "\<exists>i<n. P i"
  then obtain i where i: "i < n" "P i" by blast
  define k where "k = (LEAST k. P k)"
  have "P k" unfolding k_def using i(2) by (rule LeastI)
  moreover have "k \<le> i" unfolding k_def using i(2) by (rule Least_le)
  moreover have "\<forall>j<k. \<not> P j" unfolding k_def using not_less_Least by blast
  ultimately show ?thesis using i(1) by (intro exI [of _ k]) simp
qed

lemma spawn_enemies_cases:
  "(target \<le> length (enemies s) \<longrightarrow> spawn_enemies dt target pick heading s = s) \<and>
   (length (enemies s) \<le> target \<longrightarrow>
      length (enemies (spawn_enemies dt target pick heading s)) \<le> target) \<and>
   (length (enemies s) < target \<and> enemy_spawn_timer s - dt \<le> 0 \<and> free_spawn_areas s \<noteq> [] \<longrightarrow>
      (if \<exists>i<100. placement_ok s (choice (free_spawn_areas s) (pick i))
       then enemy_spawn_timer (spawn_enemies dt target pick heading s) = 2 \<and>
            (\<exists>k<100. (\<forall>j<k. \<not> placement_ok s (choice (free_spawn_areas s) (pick j))) \<and>
               enemies (spawn_enemies dt target pick heading s) =
                 enemies s @
                   [(new_plane (next_oid s)
                       (of_int (fst (choice (free_spawn_areas s) (pick k))))
                       (of_int (snd (choice (free_spawn_areas s) (pick k)))) False)
                      \<lparr>angle := cardinal heading, target_angle := cardinal heading\<rparr>])
       else enemy_spawn_timer (spawn_enemies dt target pick heading s) = 1 \<and>
            enemies (spawn_enemies dt target pick heading s) = enemies s)) \<and>
   (length (enemies s) < target \<and> \<not> (enemy_spawn_timer s - dt \<le> 0 \<and> free_spawn_areas s \<noteq> []) \<longrightarrow>
      spawn_enemies dt target pick heading s = s\<lparr>enemy_spawn_timer := enemy_spawn_timer s - dt\<rparr>)"
proof -
  define s1 where "s1 = s\<lparr>enemy_spawn_timer := enemy_spawn_timer s - dt\<rparr>"
  have s1: "free_spawn_areas s1 = free_spawn_areas s" "enemies s1 = enemies s"
    "next_oid s1 = next_oid s" "enemy_spawn_timer s1 = enemy_spawn_timer s - dt"
    "\<And>pos. placement_ok s1 pos = placement_ok s pos"
    by (simp_all add: s1_def)
  have full: "spawn_enemies dt target pick heading s = s" if "target \<le> length (enemies s)"
    using that by (simp add: spawn_enemies_def)
  have idle: "spawn_enemies dt target pick heading s = s1"
    if "length (enemies s) < target" "\<not> (enemy_spawn_timer s - dt \<le> 0 \<and> free_spawn_areas s \<noteq> [])"
    using that by (auto simp: spawn_enemies_def Let_def s1_def)
  have run: "spawn_enemies dt target pick heading s = spawn_attempts 100 0 pick heading s1"
    if "length (enemies s) < target" "enemy_spawn_timer s - dt \<le> 0" "free_spawn_areas s \<noteq> []"
    using that by (simp add: spawn_enemies_def Let_def s1_def)
  have fail: "spawn_attempts 100 0 pick heading s1 = s1\<lparr>enemy_spawn_timer := ENEMY_SPAWN_DELAY / 2\<rparr>"
    if "\<not> (\<exists>i<100. placement_ok s (choice (free_spawn_areas s) (pick i)))"
    using that by (intro spawn_attempts_fail) (simp add: s1)
  have succ: "\<exists>k<100. (\<forall>j<k. \<not> placement_ok s (choice (free_spawn_areas s) (pick j))) \<and>
      spawn_attempts 100 0 pick heading s1 =
        s1\<lparr>enemies := enemies s @
             [(new_plane (next_oid s)
                 (of_int (fst (choice (free_spawn_areas s) (pick k))))
                 (of_int (snd (choice (free_spawn_areas s) (pick k)))) False)
                \<lparr>angle := cardinal heading, target_angle := cardinal heading\<rparr>],
           next_oid := next_oid s + 1,
           enemy_spawn_timer := ENEMY_SPAWN_DELAY\<rparr>"
    if "\<exists>i<100. placement_ok s (choice (free_spawn_areas s) (pick i))"
  proof -
    from first_success [OF that] obtain k where k: "k < 100"
      "\<forall>j<k. \<not> placement_ok s (choice (free_spawn_areas s) (pick j))"
      "placement_ok s (choice (free_spawn_areas s) (pick k))" by blast
    have "spawn_attempts 100 0 pick heading s1 =
        s1\<lparr>enemies := enemies s1 @
             [(new_plane (next_oid s1)
                 (of_int (fst (choice (free_spawn_areas s1) (pick (0 + k)))))
                 (of_int (snd (choice (free_spawn_areas s1) (pick (0 + k))))) False)
                \<lparr>angle := cardinal heading, target_angle := cardinal heading\<rparr>],
           next_oid := next_oid s1 + 1,
           enemy_spawn_timer := ENEMY_SPAWN_DELAY\<rparr>"
      using k by (intro spawn_attempts_success) (simp_all add: s1)
    then show ?thesis using k(1,2) by (auto simp: s1)
  qed
  have bound: "length (enemies (spawn_enemies dt target pick heading s)) \<le> target"
    if le: "length (enemies s) \<le> target"
  proof (cases "length (enemies s) < target")
    case False
    with le full show ?thesis by simp
  next
    case lt: True
    show ?thesis
    proof (cases "enemy_spawn_timer s - dt \<le> 0 \<and> free_spawn_areas s \<noteq> []")
      case False
      with lt idle show ?thesis by (simp add: s1)
    next
      case True
      then have r: "spawn_enemies dt target pick heading s = spawn_attempts 100 0 pick heading s1"
        using lt run by simp
      show ?thesis
      proof (cases "\<exists>i<100. placement_ok s (choice (free_spawn_areas s) (pick i))")
        case True
        from succ [OF this] lt show ?thesis unfolding r by auto
      next
        case False
        from fail [OF this] lt show ?thesis unfolding r by (simp add: s1)
      qed
    qed
  qed
  show ?thesis
  proof (intro conjI impI)
    show "spawn_enemies dt target pick heading s = s" if "target \<le> length (enemies s)"
      using that by (rule full)
    show "length (enemies (spawn_enemies dt target pick heading s)) \<le> target"
      if "length (enemies s) \<le> target" using that by (rule bound)
    show "spawn_enemies dt target pick heading s = s\<lparr>enemy_spawn_timer := enemy_spawn_timer s - dt\<rparr>"
      if "length (enemies s) < target \<and> \<not> (enemy_spawn_timer s - dt \<le> 0 \<and> free_spawn_areas s \<noteq> [])"
      using that idle by (simp add: s1_def)
    show "if \<exists>i<100. placement_ok s (choice (free_spawn_areas s) (pick i))
       then enemy_spawn_timer (spawn_enemies dt target pick heading s) = 2 \<and>
            (\<exists>k<100. (\<forall>j<k. \<not> placement_ok s (choice (free_spawn_areas s) (pick j))) \<and>
               enemies (spawn_enemies dt target pick heading s) =
                 enemies s @
                   [(new_plane (next_oid s)
                       (of_int (fst (choice (free_spawn_areas s) (pick k))))
                       (of_int (snd (choice (free_spawn_areas s) (pick k)))) False)
                      \<lparr>angle := cardinal heading, target_angle := cardinal heading\<rparr>])
       else enemy_spawn_timer (spawn_enemies dt target pick heading s) = 1 \<and>
            enemies (spawn_enemies dt target pick heading s) = enemies s"
      if h: "length (enemies s) < target \<and> enemy_spawn_timer s - dt \<le> 0 \<and> free_spawn_areas s \<noteq> []"
    proof (cases "\<exists>i<100. placement_ok s (choice (free_spawn_areas s) (pick i))")
      case True
      from succ [OF this] obtain k where k: "k < 100"
        "\<forall>j<k. \<not> placement_ok s (choice (free_spawn_areas s) (pick j))"
        "spawn_attempts 100 0 pick heading s1 =
          s1\<lparr>enemies := enemies s @
             [(new_plane (next_oid s)
                 (of_int (fst (choice (free_spawn_areas s) (pick k))))
                 (of_int (snd (choice (free_spawn_areas s) (pick k)))) False)
                \<lparr>angle := cardinal heading, target_angle := cardinal heading\<rparr>],
           next_oid := next_oid s + 1,
           enemy_spawn_timer := ENEMY_SPAWN_DELAY\<rparr>" by blast
      have "enemy_spawn_timer (spawn_enemies dt target pick heading s) = 2"
        using h run k(3) by (simp add: ENEMY_SPAWN_DELAY_def)
      moreover have "\<exists>k<100. (\<forall>j<k. \<not> placement_ok s (choice (free_spawn_areas s) (pick j))) \<and>
               enemies (spawn_enemies dt target pick heading s) =
                 enemies s @
                   [(new_plane (next_oid s)
                       (of_int (fst (choice (free_spawn_areas s) (pick k))))
                       (of_int (snd (choice (free_spawn_areas s) (pick k)))) False)
                      \<lparr>angle := cardinal heading, target_angle := cardinal heading\<rparr>]"
        using h run k by (intro exI [of _ k]) simp
      ultimately show ?thesis using True by simp
    next
      case False
      from fail [OF this] h run have
        "enemy_spawn_timer (spawn_enemies dt target pick heading s) = 1"
        "enemies (spawn_enemies dt target pick heading s) = enemies s"
        by (simp_all add: ENEMY_SPAWN_DELAY_def s1)
      then show ?thesis using False by simp
    qed
  qed
qed


text \<open>
  Claim C6. In every session reachable from the start of the program the hostile count is
  at most the target of the current level. While the count is at or above the target the
  spawner returns the session untouched, and a count within the target stays within it.
  Below the target, with the timer run out after this tick's decrement and a non-empty
  list of free cells, the spawner tries the drawn cells in turn, up to 100 of them: the
  first accepted cell gets one new hostile and the timer is set to the nominal 2.0
  seconds; if none of the 100 is accepted, no hostile is added and the timer is set to
  1.0 second, half the nominal delay. Otherwise only the timer is decremented.
\<close>

theorem spawner_rule:
  "(reachable t \<longrightarrow> length (enemies t) \<le> target_enemies_of (current_level t)) \<and>
   (target \<le> length (enemies s) \<longrightarrow> spawn_enemies dt target pick heading s = s) \<and>
   (length (enemies s) \<le> target \<longrightarrow>
      length (enemies (spawn_enemies dt target pick heading s)) \<le> target) \<and>
   (length (enemies s) < target \<and> enemy_spawn_timer s - dt \<le> 0 \<and> free_spawn_areas s \<noteq> [] \<longrightarrow>
      (if \<exists>i<100. placement_ok s (choice (free_spawn_areas s) (pick i))
       then enemy_spawn_timer (spawn_enemies dt target pick heading s) = 2 \<and>
            (\<exists>k<100. (\<forall>j<k. \<not> placement_ok s (choice (free_spawn_areas s) (pick j))) \<and>
               enemies (spawn_enemies dt target pick heading s) =
                 enemies s @
                   [(new_plane (next_oid s)
                       (of_int (fst (choice (free_spawn_areas s) (pick k))))
                       (of_int (snd (choice (free_spawn_areas s) (pick k)))) False)
                      \<lparr>angle := cardinal heading, target_angle := cardinal heading\<rparr>])
       else enemy_spawn_timer (spawn_enemies dt target pick heading s) = 1 \<and>
            enemies (spawn_enemies dt target pick heading s) = enemies s)) \<and>
   (length (enemies s) < target \<and> \<not> (enemy_spawn_timer s - dt \<le> 0 \<and> free_spawn_areas s \<noteq> []) \<longrightarrow>
      spawn_enemies dt target pick heading s = s\<lparr>enemy_spawn_timer := enemy_spawn_timer s - dt\<rparr>)"
proof (rule conjI)
  show "reachable t \<longrightarrow> length (enemies t) \<le> target_enemies_of (current_level t)"
    using reachable_enemy_cap [of t] by (simp add: enemy_cap_def)
qed (rule spawn_enemies_cases)

theorem spawner_rule_witness:
  "(let full = blank_session\<lparr>enemies := [new_plane 1 100 100 False, new_plane 2 300 100 False,
                                            new_plane 3 500 100 False]\<rparr>
    in spawn_enemies (1/60) 3 (\<lambda>i. 0) 0 full = full) \<and>
   (let s = blank_session\<lparr>player := Some (new_plane 0 400 300 True),
                            free_spawn_areas := [(100, 100)], enemy_spawn_timer := 1/100\<rparr>
    in enemy_spawn_timer (spawn_enemies (1/60) 3 (\<lambda>i. 0) 0 s) = 2 \<and>
       length (enemies (spawn_enemies (1/60) 3 (\<lambda>i. 0) 0 s)) = 1) \<and>
   (let s = blank_session\<lparr>player := Some (new_plane 0 400 300 True),
                            free_spawn_areas := [(400, 300)], enemy_spawn_timer := 1/100\<rparr>
    in enemy_spawn_timer (spawn_enemies (1/60) 3 (\<lambda>i. 0) 0 s) = 1 \<and>
       enemies (spawn_enemies (1/60) 3 (\<lambda>i. 0) 0 s) = []) \<and>
   spawn_enemies (1/60) 3 (\<lambda>i. 0) 0 (blank_session\<lparr>enemy_spawn_timer := 1\<rparr>) =
     blank_session\<lparr>enemy_spawn_timer := 1 - 1/60\<rparr> \<and>
   length (enemies (main None (\<lambda>k. (1, 1, 96, 96)) (\<lambda>k. (1, 1, 96, 96)))) \<le>
     target_enemies_of (current_level (main None (\<lambda>k. (1, 1, 96, 96)) (\<lambda>k. (1, 1, 96, 96))))"
proof -
  define full where "full = blank_session\<lparr>enemies := [new_plane 1 100 100 False,
     new_plane 2 300 100 False, new_plane 3 500 100 False]\<rparr>"
  define good where "good = blank_session\<lparr>player := Some (new_plane 0 400 300 True),
     free_spawn_areas := [(100, 100)], enemy_spawn_timer := 1/100\<rparr>"
  define bad where "bad = blank_session\<lparr>player := Some (new_plane 0 400 300 True),
     free_spawn_areas := [(400, 300)], enemy_spawn_timer := 1/100\<rparr>"
  have ok: "placement_ok good (choice (free_spawn_areas good) 0)"
    by (simp add: good_def blank_session_def placement_ok_def choice_def is_position_free_def
        is_position_far_from_other_enemies_def new_plane_def distance_gt_iff)
  have no: "\<not> placement_ok bad (choice (free_spawn_areas bad) 0)"
    by (simp add: bad_def blank_session_def placement_ok_def choice_def new_plane_def
        distance_gt_iff)
  have ex: "\<exists>i<100::nat. placement_ok good (choice (free_spawn_areas good) 0)"
    using ok by (intro exI [of _ 0]) simp
  have a: "spawn_enemies (1/60) 3 (\<lambda>i. 0) 0 full = full"
    using spawner_rule [where target = 3 and s = full and dt = "1/60" and pick = "\<lambda>i. 0" and heading = 0, THEN conjunct2]
    by (simp add: full_def blank_session_def)
  have pre_good: "length (enemies good) < 3 \<and> enemy_spawn_timer good - 1/60 \<le> 0 \<and>
      free_spawn_areas good \<noteq> []"
    by (simp add: good_def blank_session_def)
  have pre_bad: "length (enemies bad) < 3 \<and> enemy_spawn_timer bad - 1/60 \<le> 0 \<and>
      free_spawn_areas bad \<noteq> []"
    by (simp add: bad_def blank_session_def)
  have eg: "enemies good = []" by (simp add: good_def blank_session_def)
  have eb: "enemies bad = []" by (simp add: bad_def blank_session_def)
  have b: "enemy_spawn_timer (spawn_enemies (1/60) 3 (\<lambda>i. 0) 0 good) = 2 \<and>
       length (enemies (spawn_enemies (1/60) 3 (\<lambda>i. 0) 0 good)) = 1"
    using spawner_rule [where target = 3 and s = good and dt = "1/60" and pick = "\<lambda>i. 0" and heading = 0, THEN conjunct2] pre_good ex eg by auto
  have c: "enemy_spawn_timer (spawn_enemies (1/60) 3 (\<lambda>i. 0) 0 bad) = 1 \<and>
       enemies (spawn_enemies (1/60) 3 (\<lambda>i. 0) 0 bad) = []"
    using spawner_rule [where target = 3 and s = bad and dt = "1/60" and pick = "\<lambda>i. 0" and heading = 0, THEN conjunct2] pre_bad no eb by auto
  have d: "spawn_enemies (1/60) 3 (\<lambda>i. 0) 0 (blank_session\<lparr>enemy_spawn_timer := 1\<rparr>) =
     blank_session\<lparr>enemy_spawn_timer := 1 - 1/60\<rparr>"
    using spawner_rule [where target = 3 and s = "blank_session\<lparr>enemy_spawn_timer := 1\<rparr>" and dt = "1/60" and pick = "\<lambda>i. 0" and heading = 0, THEN conjunct2]
    by (simp add: blank_session_def)
  have e: "length (enemies (main None (\<lambda>k. (1, 1, 96, 96)) (\<lambda>k. (1, 1, 96, 96)))) \<le>
     target_enemies_of (current_level (main None (\<lambda>k. (1, 1, 96, 96)) (\<lambda>k. (1, 1, 96, 96))))"
    using spawner_rule [where t = "main None (\<lambda>k. (1, 1, 96, 96)) (\<lambda>k. (1, 1, 96, 96))"]
      reachable.start [of None "\<lambda>k. (1, 1, 96, 96)" "\<lambda>k. (1, 1, 96, 96)"]
    by blast
  show ?thesis
    using a b c d e unfolding full_def good_def bad_def Let_def by blast
qed

section \<open>Name entry\<close>

lemma name_entry_editing:
  assumes "state s = WIN" "name_input_active s"
  shows "on_key_press key_BACKSPACE modifiers now s = s\<lparr>name_input := butlast (name_input s)\<rparr>"
    and "on_key_press key_SPACE modifiers now s = s\<lparr>name_input := name_input s @ '' ''\<rparr>"
    and "name_input s \<noteq> [] \<Longrightarrow>
         on_key_press key_ENTER modifiers now s =
           s\<lparr>high_score_manager :=
                add_score (name_input s) (score s) 4 now (high_score_manager s),
              name_input_active := False, name_input := []\<rparr>"
    and "name_input s = [] \<Longrightarrow> on_key_press key_ENTER modifiers now s = s"
  using assms
  by (simp_all add: on_key_press_def key_ENTER_def key_BACKSPACE_def key_SPACE_def key_R_def
      LEVELS_def)



end
